theory Spec2Isabelle
  imports Complex_Main "HOL-Library.Sublist"
begin

section \<open>JavaScript values used by the render engine\<close>

text \<open>
  Numbers are modelled as exact rationals together with the three special values a
  computation of the engine can produce.  Strings are byte strings.  A missing property
  (\<open>undefined\<close>) is \<open>None\<close>.
\<close>

datatype jsnum = NaN | Num rat | PosInf | NegInf

datatype js_error = TypeError string | RangeError string | Error string


text \<open>Truthiness of a number: \<open>0\<close> and \<open>NaN\<close> are falsy.\<close>

fun truthy :: "jsnum \<Rightarrow> bool" where
  "truthy NaN = False"
| "truthy (Num r) = (r \<noteq> 0)"
| "truthy PosInf = True"
| "truthy NegInf = True"

text \<open>\<open>a || b\<close> on numbers, and with an absent left operand.\<close>

definition js_or :: "jsnum \<Rightarrow> jsnum \<Rightarrow> jsnum" where
  "js_or a b = (if truthy a then a else b)"

definition js_or_undef :: "jsnum option \<Rightarrow> jsnum \<Rightarrow> jsnum" where
  "js_or_undef a b = (case a of None \<Rightarrow> b | Some n \<Rightarrow> js_or n b)"

text \<open>\<open>s || d\<close> on strings: the empty string and \<open>undefined\<close> are falsy.\<close>

definition str_or :: "string option \<Rightarrow> string \<Rightarrow> string" where
  "str_or a d = (case a of None \<Rightarrow> d | Some s \<Rightarrow> if s = [] then d else s)"

text \<open>\<open>a < b\<close> on numbers; every comparison with \<open>NaN\<close> is false.\<close>

fun js_less :: "jsnum \<Rightarrow> jsnum \<Rightarrow> bool" where
  "js_less (Num a) (Num b) = (a < b)"
| "js_less NaN _ = False"
| "js_less _ NaN = False"
| "js_less NegInf NegInf = False"
| "js_less NegInf _ = True"
| "js_less _ NegInf = False"
| "js_less PosInf _ = False"
| "js_less _ PosInf = True"

subsection \<open>Characters and number syntax\<close>

definition is_js_space :: "char \<Rightarrow> bool" where
  "is_js_space c = (let n = (of_char c :: nat) in (9 \<le> n \<and> n \<le> 13) \<or> n = 32 \<or> n = 160)"

definition is_digit :: "char \<Rightarrow> bool" where
  "is_digit c = (let n = (of_char c :: nat) in 48 \<le> n \<and> n \<le> 57)"

definition digit_val :: "char \<Rightarrow> nat" where
  "digit_val c = of_char c - 48"

definition digits_val :: "string \<Rightarrow> nat" where
  "digits_val ds = foldl (\<lambda>acc c. 10 * acc + digit_val c) 0 ds"

definition is_hex_digit :: "char \<Rightarrow> bool" where
  "is_hex_digit c = (let n = (of_char c :: nat) in
     (48 \<le> n \<and> n \<le> 57) \<or> (65 \<le> n \<and> n \<le> 70) \<or> (97 \<le> n \<and> n \<le> 102))"

definition hex_digit_val :: "char \<Rightarrow> nat" where
  "hex_digit_val c = (let n = (of_char c :: nat) in
     if n \<le> 57 then n - 48 else if n \<le> 70 then n - 55 else n - 87)"

definition hex_digits_val :: "string \<Rightarrow> nat" where
  "hex_digits_val ds = foldl (\<lambda>acc c. 16 * acc + hex_digit_val c) 0 ds"

definition to_lower_char :: "char \<Rightarrow> char" where
  "to_lower_char c = (let n = (of_char c :: nat) in
     if 65 \<le> n \<and> n \<le> 90 then char_of (n + 32) else c)"

definition toLowerCase :: "string \<Rightarrow> string" where
  "toLowerCase s = map to_lower_char s"

text \<open>\<open>s.includes(p)\<close>: \<open>p\<close> occurs in \<open>s\<close> as a contiguous substring.\<close>

fun str_includes :: "string \<Rightarrow> string \<Rightarrow> bool" where
  "str_includes [] p = (p = [])"
| "str_includes (c # s) p = (prefix p (c # s) \<or> str_includes s p)"

text \<open>\<open>s.trim()\<close> is truthy: something is left once the leading white space is gone.\<close>

definition trim_nonempty :: "string \<Rightarrow> bool" where
  "trim_nonempty s = (dropWhile is_js_space s \<noteq> [])"

text \<open>Decimal rendering of a non-negative integer and of an integer (\<open>Number.toString\<close>).\<close>

fun show_nat :: "nat \<Rightarrow> string" where
  "show_nat n = (if n < 10 then [char_of (48 + n)]
                 else show_nat (n div 10) @ [char_of (48 + n mod 10)])"

declare show_nat.simps [simp del]

definition show_int :: "int \<Rightarrow> string" where
  "show_int i = (if i < 0 then CHR ''-'' # show_nat (nat (- i)) else show_nat (nat i))"

text \<open>
  \<open>parseFloat\<close>: leading white space is skipped, then the longest prefix that is a
  decimal literal is read: an optional sign, \<open>Infinity\<close>, or digits with an optional
  fraction and an optional well-formed exponent.  Anything else is \<open>NaN\<close>.
\<close>

definition split_sign :: "string \<Rightarrow> rat \<times> string" where
  "split_sign s = (case s of
       c # r \<Rightarrow> if c = CHR ''-'' then (- 1, r) else if c = CHR ''+'' then (1, r) else (1, s)
     | [] \<Rightarrow> (1, s))"

definition exponent_part :: "string \<Rightarrow> int" where
  "exponent_part s = (case s of
       [] \<Rightarrow> 0
     | c # r \<Rightarrow>
         if c = CHR ''e'' \<or> c = CHR ''E'' then
           (let (sg, r') = split_sign r; ds = takeWhile is_digit r'
            in if ds = [] then 0
               else if sg < 0 then - int (digits_val ds) else int (digits_val ds))
         else 0)"

definition pow10 :: "int \<Rightarrow> rat" where
  "pow10 e = (if e < 0 then 1 / 10 ^ nat (- e) else 10 ^ nat e)"

definition parseFloat :: "string option \<Rightarrow> jsnum" where
  "parseFloat v = (case v of
       None \<Rightarrow> NaN
     | Some s \<Rightarrow>
         (let (sg, r) = split_sign (dropWhile is_js_space s) in
          if prefix ''Infinity'' r then (if sg < 0 then NegInf else PosInf)
          else
            (let ip = takeWhile is_digit r;
                 r1 = dropWhile is_digit r;
                 has_dot = (case r1 of c # _ \<Rightarrow> c = CHR ''.'' | [] \<Rightarrow> False);
                 fp = (if has_dot then takeWhile is_digit (tl r1) else []);
                 r2 = (if has_dot then dropWhile is_digit (tl r1) else r1)
             in if ip = [] \<and> fp = [] then NaN
                else Num (sg * (of_nat (digits_val ip)
                                + of_nat (digits_val fp) / 10 ^ length fp)
                             * pow10 (exponent_part r2)))))"

text \<open>
  \<open>parseInt\<close> without a radix: white space, a sign, an optional \<open>0x\<close> prefix, then
  the digits of the radix; \<open>None\<close> is \<open>NaN\<close>.
\<close>

definition parseInt :: "string option \<Rightarrow> int option" where
  "parseInt v = (case v of
       None \<Rightarrow> None
     | Some s \<Rightarrow>
         (let (sg, r) = split_sign (dropWhile is_js_space s);
              sgn = (if sg < 0 then - 1 else 1 :: int)
          in if prefix ''0x'' r \<or> prefix ''0X'' r then
               (let ds = takeWhile is_hex_digit (drop 2 r)
                in if ds = [] then None else Some (sgn * int (hex_digits_val ds)))
             else
               (let ds = takeWhile is_digit r
                in if ds = [] then None else Some (sgn * int (digits_val ds)))))"

definition int_to_jsnum :: "int option \<Rightarrow> jsnum" where
  "int_to_jsnum v = (case v of None \<Rightarrow> NaN | Some i \<Rightarrow> Num (of_int i))"

section \<open>Geometry\<close>

record rect =
  r_x :: rat
  r_y :: rat
  r_width :: rat
  r_height :: rat

type_synonym matrix = "rat \<times> rat \<times> rat \<times> rat \<times> rat \<times> rat"

definition identity_matrix :: matrix where
  "identity_matrix = (1, 0, 0, 1, 0, 0)"

definition zero_rect :: rect where
  "zero_rect = \<lparr>r_x = 0, r_y = 0, r_width = 0, r_height = 0\<rparr>"


section \<open>Paint records\<close>

text \<open>
  The drawing surface is modelled by the sequence of operations issued on it.
\<close>

datatype canvas_op =
    Save
  | Restore
  | BeginPath
  | RectPath rat rat rat rat
  | Clip
  | MulGlobalAlpha rat
  | SetTransform matrix
  | SetFillStyle string
  | SetStrokeStyle "string option"
  | SetLineWidth rat
  | FillRect rat rat rat rat
  | StrokeRect rat rat rat rat
  | ClearRect rat rat rat rat
  | SetFont string
  | SetTextAlign string
  | SetTextBaseline string
  | FillText string rat rat "rat option"
  | DrawImage string "rect option" rat rat rat rat
  | MoveTo rat rat
  | LineTo rat rat
  | Arc rat rat rat rat rat
  | QuadraticCurveTo rat rat rat rat
  | BezierCurveTo rat rat rat rat rat rat
  | ClosePath
  | Fill
  | Stroke
  | SetShadowColor string
  | SetShadowBlur jsnum
  | SetShadowOffsetX jsnum
  | SetShadowOffsetY jsnum
  | SetGlobalCompositeOperation string
  | Transform matrix
  | Translate rat rat
  | SetImageSmoothingEnabled bool
  | SetImageSmoothingQuality string

type_synonym canvas = "canvas_op list"

datatype path_command =
    PMoveTo rat rat
  | PLineTo rat rat
  | PArc rat rat rat rat rat
  | PQuadraticCurveTo rat rat rat rat
  | PBezierCurveTo rat rat rat rat rat rat
  | PClosePath
  | POther string

text \<open>The fields every \<open>PaintRecord\<close> has (set by the base-class constructor).\<close>

record paint_common =
  pr_type :: string
  pr_layerId :: "string option"
  pr_zIndex :: rat
  pr_bounds :: rect
  pr_opacity :: rat
  pr_visible :: bool
  pr_clipRect :: "rect option"
  pr_transform :: "matrix option"

text \<open>
  The subclasses.  \<open>BaseRecord\<close> is an instance of the base class itself (as
  \<open>clone\<close> returns), whose paint operation is not implemented.
\<close>

datatype paint_record =
    RectPaintRecord paint_common (rect_fillStyle: string) (rect_strokeStyle: "string option")
      (rect_lineWidth: rat) (rect_filled: bool) (rect_stroked: bool)
  | TextPaintRecord paint_common (text_text: string) (text_font: string)
      (text_fillStyle: string) (text_maxWidth: "rat option") (text_textAlign: string)
      (text_textBaseline: string)
  | ImagePaintRecord paint_common (image_image: "string option")
      (image_sourceRect: "rect option")
  | PathPaintRecord paint_common (path_path: "path_command list")
      (path_fillStyle: "string option") (path_strokeStyle: string) (path_lineWidth: rat)
      (path_filled: bool) (path_stroked: bool)
  | ShadowPaintRecord paint_common (shadowColor: string) (shadowBlur: jsnum)
      (shadowOffsetX: jsnum) (shadowOffsetY: jsnum) (targetRecord: "paint_record option")
  | BaseRecord paint_common

fun common :: "paint_record \<Rightarrow> paint_common" where
  "common (RectPaintRecord c _ _ _ _ _) = c"
| "common (TextPaintRecord c _ _ _ _ _ _) = c"
| "common (ImagePaintRecord c _ _) = c"
| "common (PathPaintRecord c _ _ _ _ _ _) = c"
| "common (ShadowPaintRecord c _ _ _ _ _) = c"
| "common (BaseRecord c) = c"

fun map_common :: "(paint_common \<Rightarrow> paint_common) \<Rightarrow> paint_record \<Rightarrow> paint_record" where
  "map_common f (RectPaintRecord c a1 a2 a3 a4 a5) = RectPaintRecord (f c) a1 a2 a3 a4 a5"
| "map_common f (TextPaintRecord c a1 a2 a3 a4 a5 a6) = TextPaintRecord (f c) a1 a2 a3 a4 a5 a6"
| "map_common f (ImagePaintRecord c a1 a2) = ImagePaintRecord (f c) a1 a2"
| "map_common f (PathPaintRecord c a1 a2 a3 a4 a5 a6) = PathPaintRecord (f c) a1 a2 a3 a4 a5 a6"
| "map_common f (ShadowPaintRecord c a1 a2 a3 a4 a5) = ShadowPaintRecord (f c) a1 a2 a3 a4 a5"
| "map_common f (BaseRecord c) = BaseRecord (f c)"

definition bounds :: "paint_record \<Rightarrow> rect" where
  "bounds r = pr_bounds (common r)"

definition set_bounds :: "rect \<Rightarrow> paint_record \<Rightarrow> paint_record" where
  "set_bounds b r = map_common (\<lambda>c. c\<lparr>pr_bounds := b\<rparr>) r"

definition record_type :: "paint_record \<Rightarrow> string" where
  "record_type r = pr_type (common r)"

text \<open>
  Constructor parameters of a paint record: every property may be absent.  The base
  constructor applies the defaults with \<open>||\<close> (\<open>visible\<close> with \<open>!== false\<close>).
\<close>

record paint_params =
  p_layerId :: "string option"
  p_zIndex :: "jsnum option"
  p_bounds :: "rect option"
  p_opacity :: "rat option"
  p_visible :: "bool option"
  p_clipRect :: "rect option"
  p_transform :: "matrix option"

definition no_params :: paint_params where
  "no_params = \<lparr>p_layerId = None, p_zIndex = None, p_bounds = None, p_opacity = None,
     p_visible = None, p_clipRect = None, p_transform = None\<rparr>"

definition rat_or :: "rat option \<Rightarrow> rat \<Rightarrow> rat" where
  "rat_or a d = (case a of None \<Rightarrow> d | Some r \<Rightarrow> if r = 0 then d else r)"

definition PaintRecord :: "string \<Rightarrow> paint_params \<Rightarrow> paint_common" where
  "PaintRecord ty params =
     \<lparr>pr_type = ty,
      pr_layerId = (case p_layerId params of None \<Rightarrow> None
                    | Some s \<Rightarrow> if s = [] then None else Some s),
      pr_zIndex = (case js_or_undef (p_zIndex params) (Num 0) of Num z \<Rightarrow> z | _ \<Rightarrow> 0),
      pr_bounds = (case p_bounds params of None \<Rightarrow> zero_rect | Some b \<Rightarrow> b),
      pr_opacity = rat_or (p_opacity params) 1,
      pr_visible = (p_visible params \<noteq> Some False),
      pr_clipRect = p_clipRect params,
      pr_transform = p_transform params\<rparr>"

section \<open>Layout nodes and layers\<close>

record element =
  e_nodeType :: nat
  e_tagName :: "string option"
  e_data :: "string option"

text \<open>Of the box model only the top border width is read by the engine.\<close>

record box_model =
  bm_border_top :: rat

datatype layout_node =
  LayoutNode (n_style: "string \<Rightarrow> string option") (n_layout: "rect option")
    (n_boxModel: "box_model option") (n_element: "element option")
    (n_children: "layout_node list")

text \<open>
  A geometry object whose properties may be missing: \<open>{...layout}\<close> of a node without
  layout is the empty object.
\<close>

record jsrect =
  j_x :: "rat option"
  j_y :: "rat option"
  j_width :: "rat option"
  j_height :: "rat option"

definition spread_layout :: "rect option \<Rightarrow> jsrect" where
  "spread_layout l = (case l of
       None \<Rightarrow> \<lparr>j_x = None, j_y = None, j_width = None, j_height = None\<rparr>
     | Some r \<Rightarrow> \<lparr>j_x = Some (r_x r), j_y = Some (r_y r), j_width = Some (r_width r),
                  j_height = Some (r_height r)\<rparr>)"

record layer_attrs =
  l_id :: string
  l_zIndex :: int
  l_opacity :: jsnum
  l_compositingMode :: string
  l_transform :: matrix
  l_bounds :: jsrect
  l_clipRect :: "jsrect option"
  l_masksToBounds :: bool
  l_paintRecords :: "paint_record list"
  l_needsRepaint :: bool
  l_dirtyRegion :: "rect option"
  l_isFixed :: bool
  l_isScrollContainer :: bool
  l_isComposited :: bool
  l_layoutNode :: "layout_node option"
  l_compositingReason :: "string option"

text \<open>A layer owns its children; the parent back-reference is the position in the tree.\<close>

datatype layer = Layer (attrs: layer_attrs) (children: "layer list")

record layer_options =
  o_id :: "string option"
  o_zIndex :: "int option"
  o_opacity :: "jsnum option"
  o_compositingMode :: "string option"
  o_transform :: "matrix option"
  o_bounds :: "jsrect option"
  o_clipRect :: "jsrect option"
  o_masksToBounds :: "bool option"
  o_isFixed :: "bool option"
  o_isScrollContainer :: "bool option"
  o_isComposited :: "bool option"
  o_compositingReason :: "string option"

definition no_options :: layer_options where
  "no_options = \<lparr>o_id = None, o_zIndex = None, o_opacity = None, o_compositingMode = None,
     o_transform = None, o_bounds = None, o_clipRect = None, o_masksToBounds = None,
     o_isFixed = None, o_isScrollContainer = None, o_isComposited = None,
     o_compositingReason = None\<rparr>"

text \<open>
  The \<open>Layer\<close> constructor.  \<open>generated\<close> is the value \<open>generateId()\<close> would
  return (it depends on the clock and on a random number).  The option
  \<open>compositingReason\<close> is not read by the constructor.
\<close>

definition new_Layer :: "layer_options \<Rightarrow> string \<Rightarrow> layer" where
  "new_Layer options generated =
     Layer
       \<lparr>l_id = str_or (o_id options) generated,
        l_zIndex = (case o_zIndex options of None \<Rightarrow> 0 | Some z \<Rightarrow> z),
        l_opacity = js_or_undef (o_opacity options) (Num 1),
        l_compositingMode = str_or (o_compositingMode options) ''normal'',
        l_transform = (case o_transform options of None \<Rightarrow> identity_matrix | Some t \<Rightarrow> t),
        l_bounds = (case o_bounds options of
                      None \<Rightarrow> \<lparr>j_x = Some 0, j_y = Some 0, j_width = Some 0, j_height = Some 0\<rparr>
                    | Some b \<Rightarrow> b),
        l_clipRect = o_clipRect options,
        l_masksToBounds = (o_masksToBounds options = Some True),
        l_paintRecords = [],
        l_needsRepaint = True,
        l_dirtyRegion = None,
        l_isFixed = (o_isFixed options = Some True),
        l_isScrollContainer = (o_isScrollContainer options = Some True),
        l_isComposited = (o_isComposited options \<noteq> Some False),
        l_layoutNode = None,
        l_compositingReason = None\<rparr>
       []"

definition zIndex_of :: "layer \<Rightarrow> int" where
  "zIndex_of l = l_zIndex (attrs l)"

text \<open>
  \<open>addChild\<close>: push, then the stable sort by \<open>zIndex\<close>.  (The child handed over by the
  calculator has no parent yet.)
\<close>

definition addChild :: "layer \<Rightarrow> layer \<Rightarrow> layer" where
  "addChild parent child =
     Layer (attrs parent) (sort_key zIndex_of (children parent @ [child]))"

text \<open>
  \<open>dispose\<close>: the paint records are cleared (which marks the layer dirty), the children
  are disposed and detached.
\<close>

definition dispose :: "layer \<Rightarrow> layer" where
  "dispose l =
     Layer ((attrs l)\<lparr>l_paintRecords := [], l_needsRepaint := True, l_dirtyRegion := None\<rparr>) []"

section \<open>Layer tree calculator\<close>

record layer_tree =
  lt_root :: layer
  lt_allLayers :: "string list"
  lt_nextLayerId :: nat

record calc_stats =
  st_totalNodes :: nat
  st_layersCreated :: nat
  st_compositingReasons :: "string \<Rightarrow> nat option"
  st_totalCompositingReasons :: nat

text \<open>The state the calculator threads through a run: its statistics and the tree's registry.\<close>

record calc_state = calc_stats +
  st_allLayers :: "string list"
  st_nextLayerId :: nat

definition recordCompositingReason :: "string \<Rightarrow> calc_state \<Rightarrow> calc_state" where
  "recordCompositingReason reason st =
     st\<lparr>st_compositingReasons :=
          (st_compositingReasons st)
            (reason \<mapsto> (case st_compositingReasons st reason of None \<Rightarrow> 1 | Some c \<Rightarrow> c + 1)),
        st_totalCompositingReasons := st_totalCompositingReasons st + 1\<rparr>"

text \<open>A style property that is set (a non-empty string) and differs from \<open>off\<close>.\<close>

definition style_on :: "(string \<Rightarrow> string option) \<Rightarrow> string \<Rightarrow> string \<Rightarrow> bool" where
  "style_on style k off = (case style k of None \<Rightarrow> False | Some v \<Rightarrow> v \<noteq> [] \<and> v \<noteq> off)"

definition hasPositioning :: "(string \<Rightarrow> string option) \<Rightarrow> bool" where
  "hasPositioning style =
     (style ''position'' = Some ''absolute'' \<or> style ''position'' = Some ''relative'' \<or>
      style ''position'' = Some ''fixed'' \<or> style ''position'' = Some ''sticky'')"

definition hasPositiveZIndex :: "(string \<Rightarrow> string option) \<Rightarrow> bool" where
  "hasPositiveZIndex style =
     (case parseInt (style ''z-index'') of None \<Rightarrow> False | Some z \<Rightarrow> z > 0)"

definition hasComplexBoxShadow :: "(string \<Rightarrow> string option) \<Rightarrow> bool" where
  "hasComplexBoxShadow style = (case style ''box-shadow'' of
       None \<Rightarrow> False
     | Some b \<Rightarrow> if b = [] \<or> b = ''none'' then False
                 else str_includes b ''px 0px'' \<or> str_includes b '','')"

definition isCompositingElement :: "layout_node \<Rightarrow> bool" where
  "isCompositingElement node = (case n_element node of
       None \<Rightarrow> False
     | Some e \<Rightarrow> (case e_tagName e of
           None \<Rightarrow> False
         | Some t \<Rightarrow> if t = [] then False
                     else (let tagName = toLowerCase t
                           in tagName = ''video'' \<or> tagName = ''canvas'' \<or> tagName = ''iframe'' \<or>
                              tagName = ''embed'' \<or> tagName = ''object'')))"

definition hasActiveAnimation :: "(string \<Rightarrow> string option) \<Rightarrow> bool" where
  "hasActiveAnimation style = style_on style ''animation'' ''none''"

text \<open>The sixteen criteria of \<open>shouldCreateNewLayer\<close>, in the order of the source.\<close>

definition compositing_reason :: "layout_node \<Rightarrow> string option" where
  "compositing_reason node =
     (let style = n_style node in
      if style_on style ''transform'' ''none'' then Some ''transform''
      else if style ''opacity'' \<noteq> None \<and> js_less (parseFloat (style ''opacity'')) (Num 1)
        then Some ''opacity''
      else if style ''position'' = Some ''fixed'' then Some ''fixed-position''
      else if hasPositioning style \<and> hasPositiveZIndex style then Some ''z-index''
      else if (case style ''will-change'' of None \<Rightarrow> False
               | Some w \<Rightarrow> w \<noteq> [] \<and> (str_includes w ''transform'' \<or> str_includes w ''opacity'' \<or>
                                     str_includes w ''scroll-position''))
        then Some ''will-change''
      else if style_on style ''filter'' ''none'' then Some ''filter''
      else if style_on style ''backdrop-filter'' ''none'' then Some ''backdrop-filter''
      else if style_on style ''mix-blend-mode'' ''normal'' then Some ''mix-blend-mode''
      else if style ''isolation'' = Some ''isolate'' then Some ''isolation''
      else if style_on style ''clip-path'' ''none'' then Some ''clip-path''
      else if style_on style ''mask'' ''none'' then Some ''mask''
      else if hasComplexBoxShadow style then Some ''box-shadow''
      else if style ''overflow'' = Some ''scroll'' \<or> style ''overflow'' = Some ''auto''
        then Some ''scroll-container''
      else if style_on style ''-webkit-box-reflect'' [] then Some ''reflection''
      else if isCompositingElement node then Some ''compositing-element''
      else if hasActiveAnimation style then Some ''animation''
      else None)"

definition shouldCreateNewLayer :: "layout_node \<Rightarrow> calc_state \<Rightarrow> string option \<times> calc_state" where
  "shouldCreateNewLayer node st = (case compositing_reason node of
       None \<Rightarrow> (None, st)
     | Some reason \<Rightarrow> (Some reason, recordCompositingReason reason st))"

text \<open>
  \<open>createLayerForNode\<close> up to the point where the new layer is handed to its parent:
  \<open>layerTree.createLayer\<close> draws the id from the tree's counter and registers it,
  \<open>parseTransform\<close> always returns the identity, and the clip rectangle reads the width
  and height of the (possibly missing) layout.
\<close>

definition createLayerForNode :: "layout_node \<Rightarrow> string \<Rightarrow> calc_state \<Rightarrow> layer \<times> calc_state" where
  "createLayerForNode node reason st =
     (let style = n_style node;
          layout = spread_layout (n_layout node);
          options = no_options\<lparr>
            o_zIndex := Some (case parseInt (style ''z-index'') of None \<Rightarrow> 0 | Some z \<Rightarrow> z),
            o_opacity := Some (js_or (parseFloat (style ''opacity'')) (Num 1)),
            o_bounds := Some layout,
            o_isFixed := Some (style ''position'' = Some ''fixed''),
            o_isComposited := Some True,
            o_compositingReason := Some reason\<rparr>;
          lid = ''layer_'' @ show_nat (st_nextLayerId st);
          created = new_Layer (options\<lparr>o_id := Some lid\<rparr>) [];
          a0 = attrs created;
          a1 = (if style_on style ''transform'' ''none''
                then a0\<lparr>l_transform := identity_matrix, l_needsRepaint := True,
                        l_dirtyRegion := None\<rparr>
                else a0);
          clipped = (style ''overflow'' = Some ''hidden'' \<or> style ''overflow'' = Some ''scroll'' \<or>
                     style ''overflow'' = Some ''auto'');
          a2 = (if clipped
                then a1\<lparr>l_clipRect := Some \<lparr>j_x = Some 0, j_y = Some 0,
                                              j_width = j_width layout,
                                              j_height = j_height layout\<rparr>,
                        l_masksToBounds := True,
                        l_isScrollContainer := (style ''overflow'' = Some ''scroll'' \<or>
                                                style ''overflow'' = Some ''auto'')\<rparr>
                else a1);
          a3 = a2\<lparr>l_layoutNode := Some node\<rparr>
      in (Layer a3 [],
          st\<lparr>st_nextLayerId := st_nextLayerId st + 1,
             st_allLayers := st_allLayers st @ [lid],
             st_layersCreated := st_layersCreated st + 1\<rparr>))"

text \<open>
  \<open>calculateForNode\<close> returns the parent layer with the layers of the node's subtree
  added.  A node that becomes a layer collects the layers of its children before it is
  sorted into its parent; the source adds it first and fills it afterwards, through the
  reference.  Ids are drawn in the source's order.
\<close>

fun calculateForNode :: "layout_node \<Rightarrow> layer \<Rightarrow> calc_state \<Rightarrow> layer \<times> calc_state"
  and calculateForNodes :: "layout_node list \<Rightarrow> layer \<Rightarrow> calc_state \<Rightarrow> layer \<times> calc_state"
where
  "calculateForNode (LayoutNode style layout bm el cs) parentLayer st =
     (let node = LayoutNode style layout bm el cs;
          st1 = st\<lparr>st_totalNodes := st_totalNodes st + 1\<rparr>;
          (reason, st2) = shouldCreateNewLayer node st1
      in case reason of
           None \<Rightarrow> calculateForNodes cs parentLayer st2
         | Some r \<Rightarrow>
             (let (created, st3) = createLayerForNode node r st2;
                  (target, st4) = calculateForNodes cs created st3
              in (addChild parentLayer target, st4)))"
| "calculateForNodes [] parentLayer st = (parentLayer, st)"
| "calculateForNodes (c # cs) parentLayer st =
     (let (p, st1) = calculateForNode c parentLayer st
      in calculateForNodes cs p st1)"

text \<open>
  \<open>mergeLayers\<close>, called on a layer with exactly one child: the parent takes the
  child's bounds and layout node, the reasons are concatenated (an unset reason prints as
  \<open>undefined\<close>), the grandchildren are appended to the parent's children, and the child
  (the first entry) is removed and disposed.  Disposing the child disposes its children,
  which are the very layers just appended.
\<close>

definition reason_text :: "string option \<Rightarrow> string" where
  "reason_text r = (case r of None \<Rightarrow> ''undefined'' | Some s \<Rightarrow> s)"

definition mergeLayers :: "layer \<Rightarrow> layer \<Rightarrow> layer" where
  "mergeLayers parent child =
     Layer ((attrs parent)\<lparr>
              l_bounds := l_bounds (attrs child),
              l_layoutNode := l_layoutNode (attrs child),
              l_compositingReason :=
                Some (reason_text (l_compositingReason (attrs parent)) @ '', '' @
                      reason_text (l_compositingReason (attrs child)))\<rparr>)
           (map dispose (children child))"

definition unnecessary :: "layer \<Rightarrow> bool" where
  "unnecessary l =
     (length (children l) = 1 \<and> l_opacity (attrs l) = Num 1 \<and>
      l_transform (attrs l) = identity_matrix \<and>
      l_clipRect (attrs (hd (children l))) = None \<and> l_clipRect (attrs l) = None)"

definition removeUnnecessary :: "layer \<Rightarrow> layer" where
  "removeUnnecessary l = (if unnecessary l then mergeLayers l (hd (children l)) else l)"

text \<open>
  \<open>traverseLayers\<close> with the callback of \<open>removeUnnecessaryLayers\<close>: the callback runs
  on the layer, then the traversal continues into the children the layer has afterwards.
\<close>

function removeUnnecessaryLayers :: "layer \<Rightarrow> layer" where
  "removeUnnecessaryLayers l =
     (let l' = removeUnnecessary l
      in Layer (attrs l') (map removeUnnecessaryLayers (children l')))"
  by pat_completeness auto
termination
proof (relation "measure size")
  show "wf (measure size)" by simp
next
  fix l :: layer and x z
  assume x: "x = removeUnnecessary l" and z: "z \<in> set (children x)"
  have sz: "\<And>c k. c \<in> set (children k) \<Longrightarrow> size c < size k"
  proof -
    fix c k assume "c \<in> set (children k)"
    then show "size c < size k"
      by (cases k) (auto simp: less_Suc_eq_le dest: size_list_estimation'[where f = size and y = "size c"])
  qed
  show "(z, l) \<in> measure size"
  proof (cases "unnecessary l")
    case False
    with x z show ?thesis by (simp add: removeUnnecessary_def sz)
  next
    case True
    then obtain c where c: "children l = [c]"
      by (cases "children l") (auto simp: unnecessary_def)
    from x z True c obtain g where g: "g \<in> set (children c)" and zg: "z = dispose g"
      by (auto simp: removeUnnecessary_def mergeLayers_def)
    have "size z \<le> size g" using zg by (cases g) (simp add: dispose_def)
    moreover have "size g < size c" using g by (rule sz)
    moreover have "size c < size l" using c sz[of c l] by simp
    ultimately show ?thesis by simp
  qed
qed

declare removeUnnecessaryLayers.simps [simp del]

text \<open>\<open>reorderLayers\<close>: every layer's children are sorted by \<open>zIndex\<close>, top down.\<close>

function reorderLayers :: "layer \<Rightarrow> layer" where
  "reorderLayers l = Layer (attrs l) (map reorderLayers (sort_key zIndex_of (children l)))"
  by pat_completeness auto
termination
proof (relation "measure size")
  show "wf (measure size)" by simp
next
  fix l :: layer and z
  assume "z \<in> set (sort_key zIndex_of (children l))"
  then have "z \<in> set (children l)" by simp
  then have "size z < size l"
    by (cases l) (auto simp: less_Suc_eq_le dest: size_list_estimation'[where f = size and y = "size z"])
  then show "(z, l) \<in> measure size" by simp
qed

declare reorderLayers.simps [simp del]

text \<open>\<open>optimizeLayerTree\<close>; \<open>mergeCompatibleLayers\<close> does nothing.\<close>

definition optimizeLayerTree :: "layer \<Rightarrow> layer" where
  "optimizeLayerTree rootLayer = reorderLayers (removeUnnecessaryLayers rootLayer)"

text \<open>
  The argument of \<open>calculate\<close>: a layout tree object with a (possibly null) root, or
  \<open>null\<close> or \<open>undefined\<close> in its place.
\<close>

datatype layout_tree_arg = LTUndefined | LTNull | LayoutTree (tree_root: "layout_node option")

definition new_LayerTree :: layer_tree where
  "new_LayerTree =
     \<lparr>lt_root = new_Layer (no_options\<lparr>o_id := Some ''root'', o_zIndex := Some 0\<rparr>) [],
      lt_allLayers = [''root''],
      lt_nextLayerId = 1\<rparr>"

definition resetStats :: "calc_state" where
  "resetStats = \<lparr>st_totalNodes = 0, st_layersCreated = 0, st_compositingReasons = Map.empty,
     st_totalCompositingReasons = 0, st_allLayers = [''root''], st_nextLayerId = 1\<rparr>"

text \<open>
  \<open>calculate\<close>.  Reading \<open>layoutTree.root\<close> is the first use of the argument; on
  \<open>null\<close> or \<open>undefined\<close> it raises a \<open>TypeError\<close>, which nothing in the method
  catches.  The clock and the debug log are left out.
\<close>

definition calculate :: "bool \<Rightarrow> layout_tree_arg \<Rightarrow> js_error + (layer_tree \<times> calc_stats)" where
  "calculate enableCompositingOptimization layoutTree = (case layoutTree of
       LTNull \<Rightarrow> Inl (TypeError ''Cannot read properties of null (reading 'root')'')
     | LTUndefined \<Rightarrow> Inl (TypeError ''Cannot read properties of undefined (reading 'root')'')
     | LayoutTree r \<Rightarrow>
         (let tree = new_LayerTree;
              rootLayer = (case r of
                  None \<Rightarrow> lt_root tree
                | Some n \<Rightarrow> (case n_layout n of
                      None \<Rightarrow> lt_root tree
                    | Some l \<Rightarrow> Layer ((attrs (lt_root tree))\<lparr>l_bounds := spread_layout (Some l)\<rparr>)
                                       (children (lt_root tree))));
              (root1, st) = (case r of
                  None \<Rightarrow> (rootLayer, resetStats)
                | Some n \<Rightarrow> calculateForNode n rootLayer resetStats);
              root2 = (if enableCompositingOptimization then optimizeLayerTree root1 else root1)
          in Inr (\<lparr>lt_root = root2, lt_allLayers = st_allLayers st,
                    lt_nextLayerId = st_nextLayerId st\<rparr>,
                  calc_stats.truncate st)))"

section \<open>Paint record generator\<close>

subsection \<open>Constructors of the record classes\<close>

definition new_RectPaintRecord ::
  "paint_params \<Rightarrow> string option \<Rightarrow> string option \<Rightarrow> rat option \<Rightarrow> bool option \<Rightarrow> bool option
   \<Rightarrow> paint_record" where
  "new_RectPaintRecord params fill stroke lw isFilled isStroked =
     RectPaintRecord (PaintRecord ''rect'' params) (str_or fill ''#000000'')
       (case stroke of None \<Rightarrow> None | Some s \<Rightarrow> if s = [] then None else Some s)
       (rat_or lw 1) (isFilled \<noteq> Some False) (isStroked = Some True)"

definition new_TextPaintRecord ::
  "paint_params \<Rightarrow> string option \<Rightarrow> string option \<Rightarrow> string option \<Rightarrow> rat option
   \<Rightarrow> string option \<Rightarrow> string option \<Rightarrow> paint_record" where
  "new_TextPaintRecord params txt fnt fill mw align baseline =
     TextPaintRecord (PaintRecord ''text'' params) (str_or txt []) (str_or fnt ''16px serif'')
       (str_or fill ''#000000'')
       (case mw of None \<Rightarrow> None | Some w \<Rightarrow> if w = 0 then None else Some w)
       (str_or align ''left'') (str_or baseline ''top'')"

definition new_PathPaintRecord ::
  "paint_params \<Rightarrow> path_command list option \<Rightarrow> string option \<Rightarrow> string option \<Rightarrow> rat option
   \<Rightarrow> bool option \<Rightarrow> bool option \<Rightarrow> paint_record" where
  "new_PathPaintRecord params p fill stroke lw isFilled isStroked =
     PathPaintRecord (PaintRecord ''path'' params) (case p of None \<Rightarrow> [] | Some cs \<Rightarrow> cs)
       (case fill of None \<Rightarrow> None | Some s \<Rightarrow> if s = [] then None else Some s)
       (str_or stroke ''#000000'') (rat_or lw 1) (isFilled = Some True)
       (isStroked \<noteq> Some False)"

definition new_ShadowPaintRecord ::
  "paint_params \<Rightarrow> string option \<Rightarrow> jsnum option \<Rightarrow> jsnum option \<Rightarrow> jsnum option
   \<Rightarrow> paint_record option \<Rightarrow> paint_record" where
  "new_ShadowPaintRecord params color blur offX offY target =
     ShadowPaintRecord (PaintRecord ''shadow'' params) (str_or color ''rgba(0, 0, 0, 0.5)'')
       (js_or_undef blur (Num 10)) (js_or_undef offX (Num 0)) (js_or_undef offY (Num 0)) target"

subsection \<open>Parsing the shadow property\<close>

text \<open>
  \<open>parseShadow\<close> searches the value for the first match of
  \<^verbatim>\<open>rgba?\([^)]+\)\s+(\d+)px\s+(\d+)px\s+(\d+)px\<close>.  Every piece of this pattern is
  followed by a character it cannot itself match, so the greedy reading below is the only
  way a match at a given position can succeed.  The three groups are the three numbers.
\<close>

definition expect :: "string \<Rightarrow> string \<Rightarrow> string option" where
  "expect p s = (if prefix p s then Some (drop (length p) s) else None)"

definition plus1 :: "(char \<Rightarrow> bool) \<Rightarrow> string \<Rightarrow> (string \<times> string) option" where
  "plus1 P s = (let m = takeWhile P s in if m = [] then None else Some (m, dropWhile P s))"

definition number_px :: "string \<Rightarrow> (string \<times> string) option" where
  "number_px s =
     Option.bind (plus1 is_js_space s) (\<lambda>(_, s1).
     Option.bind (plus1 is_digit s1) (\<lambda>(d, s2).
     Option.bind (expect ''px'' s2) (\<lambda>s3. Some (d, s3))))"

definition shadow_match_at :: "string \<Rightarrow> (string \<times> string \<times> string) option" where
  "shadow_match_at s =
     Option.bind (expect ''rgb'' s) (\<lambda>s1.
     Option.bind (expect ''('' (case s1 of c # r \<Rightarrow> if c = CHR ''a'' then r else s1 | [] \<Rightarrow> s1))
       (\<lambda>s2.
     Option.bind (plus1 (\<lambda>c. c \<noteq> CHR '')'') s2) (\<lambda>(_, s3).
     Option.bind (expect '')'' s3) (\<lambda>s4.
     Option.bind (number_px s4) (\<lambda>(d1, s5).
     Option.bind (number_px s5) (\<lambda>(d2, s6).
     Option.bind (number_px s6) (\<lambda>(d3, _). Some (d1, d2, d3))))))))"

fun shadow_search :: "string \<Rightarrow> (string \<times> string \<times> string) option" where
  "shadow_search [] = shadow_match_at []"
| "shadow_search (c # s) = (case shadow_match_at (c # s) of
       Some m \<Rightarrow> Some m
     | None \<Rightarrow> shadow_search s)"

record shadow_params =
  sp_shadowColor :: string
  sp_shadowOffsetX :: jsnum
  sp_shadowOffsetY :: jsnum
  sp_shadowBlur :: jsnum

text \<open>
  On a match the source reads the groups 1 to 4 of a pattern that has three: the colour
  is the first number, the offsets are the second and third, and the blur is
  \<open>parseInt(undefined)\<close>.
\<close>

definition parseShadow :: "string \<Rightarrow> shadow_params" where
  "parseShadow shadow = (case shadow_search shadow of
       Some (d1, d2, d3) \<Rightarrow>
         \<lparr>sp_shadowColor = d1,
          sp_shadowOffsetX = int_to_jsnum (parseInt (Some d2)),
          sp_shadowOffsetY = int_to_jsnum (parseInt (Some d3)),
          sp_shadowBlur = int_to_jsnum (parseInt None)\<rparr>
     | None \<Rightarrow>
         \<lparr>sp_shadowColor = ''rgba(0, 0, 0, 0.5)'',
          sp_shadowOffsetX = Num 2,
          sp_shadowOffsetY = Num 2,
          sp_shadowBlur = Num 4\<rparr>)"

subsection \<open>Records of one node\<close>

text \<open>
  The generator is run on nodes that passed \<open>isNodeVisible\<close>, which requires the layout
  to be present; the functions below take that layout as \<open>layout\<close>.
\<close>

definition isNodeVisible :: "layout_node \<Rightarrow> bool" where
  "isNodeVisible node = (case n_layout node of
       None \<Rightarrow> False
     | Some layout \<Rightarrow>
         if r_width layout \<le> 0 \<or> r_height layout \<le> 0 then False
         else if n_style node ''display'' = Some ''none'' \<or>
                 n_style node ''visibility'' = Some ''hidden'' \<or>
                 n_style node ''opacity'' = Some ''0'' then False
         else True)"

definition node_bounds :: "rect \<Rightarrow> rect" where
  "node_bounds layout = \<lparr>r_x = 0, r_y = 0, r_width = r_width layout, r_height = r_height layout\<rparr>"

definition createBackgroundRecord :: "layout_node \<Rightarrow> rect \<Rightarrow> layer \<Rightarrow> paint_record option" where
  "createBackgroundRecord node layout layer = (case n_style node ''background-color'' of
       None \<Rightarrow> None
     | Some backgroundColor \<Rightarrow>
         if backgroundColor = [] \<or> backgroundColor = ''transparent'' \<or> backgroundColor = ''none''
         then None
         else Some (new_RectPaintRecord
                (no_params\<lparr>p_bounds := Some (node_bounds layout),
                            p_layerId := Some (l_id (attrs layer))\<rparr>)
                (Some backgroundColor) None None None None))"

definition createBorderRecord :: "layout_node \<Rightarrow> rect \<Rightarrow> layer \<Rightarrow> paint_record option" where
  "createBorderRecord node layout layer = (case n_boxModel node of
       None \<Rightarrow> None
     | Some boxModel \<Rightarrow>
         if n_style node ''border'' = Some ''none'' \<or> n_style node ''border'' = Some ''0'' then None
         else if bm_border_top boxModel > 0 then
           Some (new_PathPaintRecord
                  (no_params\<lparr>p_bounds := Some (node_bounds layout),
                              p_layerId := Some (l_id (attrs layer))\<rparr>)
                  (Some [PMoveTo 0 0, PLineTo (r_width layout) 0,
                         PLineTo (r_width layout) (r_height layout),
                         PLineTo 0 (r_height layout), PClosePath])
                  None (Some (str_or (n_style node ''border-color'') ''#000000''))
                  (Some (bm_border_top boxModel)) (Some False) (Some True))
         else None)"

definition createTextRecord :: "layout_node \<Rightarrow> rect \<Rightarrow> string \<Rightarrow> layer \<Rightarrow> paint_record option" where
  "createTextRecord node layout txt layer =
     (let style = n_style node in
      if \<not> trim_nonempty txt then None
      else Some (new_TextPaintRecord
             (no_params\<lparr>p_bounds := Some (node_bounds layout),
                         p_layerId := Some (l_id (attrs layer))\<rparr>)
             (Some txt)
             (Some (str_or (style ''font-weight'') ''normal'' @ '' '' @
                    str_or (style ''font-style'') ''normal'' @ '' '' @
                    str_or (style ''font-size'') ''16px'' @ '' '' @
                    str_or (style ''font-family'') ''serif''))
             (Some (str_or (style ''color'') ''#000000''))
             None
             (Some (str_or (style ''text-align'') ''left''))
             (Some ''top'')))"

definition opt_list :: "'a option \<Rightarrow> 'a list" where
  "opt_list v = (case v of None \<Rightarrow> [] | Some x \<Rightarrow> [x])"

definition createContentRecords :: "layout_node \<Rightarrow> rect \<Rightarrow> layer \<Rightarrow> paint_record list" where
  "createContentRecords node layout layer = (case n_element node of
       None \<Rightarrow> []
     | Some e \<Rightarrow>
         if e_nodeType e = 3 then
           (let txt = str_or (e_data e) []
            in if trim_nonempty txt then opt_list (createTextRecord node layout txt layer) else [])
         else [])"

text \<open>The value of \<open>style['box-shadow'] || style['text-shadow']\<close>.\<close>

definition shadow_value :: "layout_node \<Rightarrow> string option" where
  "shadow_value node = (case n_style node ''box-shadow'' of
       None \<Rightarrow> n_style node ''text-shadow''
     | Some b \<Rightarrow> if b = [] then n_style node ''text-shadow'' else Some b)"

definition createShadowRecord :: "layout_node \<Rightarrow> layer \<Rightarrow> paint_record list \<Rightarrow> paint_record option" where
  "createShadowRecord node layer contentRecords = (case shadow_value node of
       None \<Rightarrow> None
     | Some shadow \<Rightarrow>
         if shadow = [] \<or> shadow = ''none'' then None
         else (case contentRecords of
             [] \<Rightarrow> None
           | first # _ \<Rightarrow>
               (let shadowParams = parseShadow shadow
                in Some (new_ShadowPaintRecord
                       (no_params\<lparr>p_bounds := Some (bounds first),
                                   p_layerId := Some (l_id (attrs layer))\<rparr>)
                       (Some (sp_shadowColor shadowParams))
                       (Some (sp_shadowBlur shadowParams))
                       (Some (sp_shadowOffsetX shadowParams))
                       (Some (sp_shadowOffsetY shadowParams))
                       (Some first)))))"

record generator_stats =
  g_totalLayers :: nat
  g_generatedRecords :: nat
  g_optimizedRecords :: nat
  g_culledRecords :: nat

text \<open>The records emitted for a node before the shadow is considered, in emission order.\<close>

definition emitted_records :: "layout_node \<Rightarrow> rect \<Rightarrow> layer \<Rightarrow> paint_record list" where
  "emitted_records node layout layer =
     opt_list (createBackgroundRecord node layout layer) @
     opt_list (createBorderRecord node layout layer) @
     createContentRecords node layout layer"

definition createPaintRecordsForNode ::
  "layout_node \<Rightarrow> rect \<Rightarrow> layer \<Rightarrow> generator_stats \<Rightarrow> paint_record list \<times> generator_stats" where
  "createPaintRecordsForNode node layout layer stats =
     (let records = emitted_records node layout layer
      in case createShadowRecord node layer records of
           Some shadowRecord \<Rightarrow> ([shadowRecord], stats)
         | None \<Rightarrow>
             (records, stats\<lparr>g_generatedRecords := g_generatedRecords stats + length records\<rparr>))"

section \<open>Tiles\<close>

text \<open>
  What tiling, rasterization and composition read of a layer.  Here the layer has been
  laid out, so its bounds are complete rectangles and its opacity is a number.
  \<open>absoluteBounds\<close> and \<open>isVisibleInViewport\<close> are set by the compositor's
  preprocessing; before it the first is absent and the second, being \<open>undefined\<close>,
  counts as false wherever it is read.
\<close>

record tile_layer =
  tl_id :: string
  tl_bounds :: rect
  tl_absoluteBounds :: "rect option"
  tl_needsRepaint :: bool
  tl_dirtyRegion :: "rect option"
  tl_paintRecords :: "paint_record list"
  tl_zIndex :: int
  tl_opacity :: rat
  tl_transform :: matrix
  tl_clipRect :: "rect option"
  tl_isVisibleInViewport :: bool

text \<open>
  A tile.  The priority (a distance computed with a square root) and the two time stamps
  are left out; nothing below reads them.  \<open>t_rasterizedContent\<close> is the handle of the
  backing canvas, \<open>None\<close> for \<open>null\<close>.
\<close>

record tile =
  t_x :: rat
  t_y :: rat
  t_width :: rat
  t_height :: rat
  t_layer :: tile_layer
  t_tileX :: int
  t_tileY :: int
  t_rasterizedContent :: "string option"
  t_needsRasterization :: bool
  t_isDirty :: bool
  t_accessCount :: nat

definition new_Tile :: "rat \<Rightarrow> rat \<Rightarrow> rat \<Rightarrow> rat \<Rightarrow> tile_layer \<Rightarrow> int \<Rightarrow> int \<Rightarrow> tile" where
  "new_Tile x y w h layer tileX tileY =
     \<lparr>t_x = x, t_y = y, t_width = w, t_height = h, t_layer = layer, t_tileX = tileX,
      t_tileY = tileY, t_rasterizedContent = None, t_needsRasterization = True,
      t_isDirty = True, t_accessCount = 0\<rparr>"

definition markDirty :: "tile \<Rightarrow> tile" where
  "markDirty t = t\<lparr>t_isDirty := True, t_needsRasterization := True\<rparr>"

definition markClean :: "tile \<Rightarrow> tile" where
  "markClean t = t\<lparr>t_isDirty := False, t_needsRasterization := False\<rparr>"

definition access :: "tile \<Rightarrow> tile" where
  "access t = t\<lparr>t_accessCount := t_accessCount t + 1\<rparr>"

definition tile_dispose :: "tile \<Rightarrow> tile" where
  "tile_dispose t = t\<lparr>t_rasterizedContent := None\<rparr>"

definition tile_intersectsRect :: "tile \<Rightarrow> rect \<Rightarrow> bool" where
  "tile_intersectsRect t r =
     (\<not> (t_x t > r_x r + r_width r \<or> r_x r > t_x t + t_width t \<or>
         t_y t > r_y r + r_height r \<or> r_y r > t_y t + t_height t))"

section \<open>Tiling manager\<close>

record tiling_stats =
  totalTilesCreated :: nat
  totalTilesDestroyed :: nat
  tilesEvicted :: nat
  cacheHits :: nat
  cacheMisses :: nat

text \<open>
  Tiles are objects shared between the manager's map, its access order and the arrays it
  hands out, so they live in a store: \<open>tm_store\<close> maps a reference to the tile's current
  state, and the map and the access order hold references.  \<open>tm_layerTiles\<close> keeps the
  keys of each layer in insertion order.
\<close>

record tiling_manager =
  tm_tileSize :: rat
  tm_maxTiles :: rat
  tm_tiles :: "string \<Rightarrow> nat option"
  tm_layerTiles :: "string \<Rightarrow> string list option"
  tm_tileAccessOrder :: "nat list"
  tm_maxMemoryUsage :: rat
  tm_currentMemoryUsage :: rat
  tm_stats :: tiling_stats
  tm_store :: "nat \<Rightarrow> tile option"
  tm_next :: nat

record tiling_options =
  opt_tileSize :: "rat option"
  opt_maxTiles :: "rat option"
  opt_maxMemoryUsage :: "rat option"

definition new_TilingManager :: "tiling_options \<Rightarrow> tiling_manager" where
  "new_TilingManager options =
     \<lparr>tm_tileSize = rat_or (opt_tileSize options) 256,
      tm_maxTiles = rat_or (opt_maxTiles options) 1000,
      tm_tiles = Map.empty,
      tm_layerTiles = Map.empty,
      tm_tileAccessOrder = [],
      tm_maxMemoryUsage = rat_or (opt_maxMemoryUsage options) (100 * 1024 * 1024),
      tm_currentMemoryUsage = 0,
      tm_stats = \<lparr>totalTilesCreated = 0, totalTilesDestroyed = 0, tilesEvicted = 0,
                  cacheHits = 0, cacheMisses = 0\<rparr>,
      tm_store = Map.empty,
      tm_next = 0\<rparr>"

definition tile_key :: "string \<Rightarrow> int \<Rightarrow> int \<Rightarrow> string" where
  "tile_key layerId tileX tileY = layerId @ ''_'' @ show_int tileX @ ''_'' @ show_int tileY"

definition key_of :: "tile \<Rightarrow> string" where
  "key_of t = tile_key (tl_id (t_layer t)) (t_tileX t) (t_tileY t)"

definition estimateTileMemoryUsage :: "tile \<Rightarrow> rat" where
  "estimateTileMemoryUsage t = t_width t * t_height t * 4"

text \<open>
  \<open>removeTile\<close>: dispose the tile, delete it from the map and from its layer's key set
  (dropping the set when it becomes empty), take it out of the access order, count it.
\<close>

definition removeTile :: "string \<Rightarrow> tiling_manager \<Rightarrow> tiling_manager" where
  "removeTile key tm = (case tm_tiles tm key of
       None \<Rightarrow> tm
     | Some ref \<Rightarrow> (case tm_store tm ref of
           None \<Rightarrow> tm
         | Some t \<Rightarrow>
             tm\<lparr>tm_store := (tm_store tm)(ref \<mapsto> tile_dispose t),
                tm_tiles := (tm_tiles tm)(key := None),
                tm_layerTiles :=
                  (case tm_layerTiles tm (tl_id (t_layer t)) of
                     None \<Rightarrow> tm_layerTiles tm
                   | Some keys \<Rightarrow>
                       (if remove1 key keys = []
                        then (tm_layerTiles tm)(tl_id (t_layer t) := None)
                        else (tm_layerTiles tm)(tl_id (t_layer t) \<mapsto> remove1 key keys))),
                tm_tileAccessOrder := remove1 ref (tm_tileAccessOrder tm),
                tm_stats := (tm_stats tm)\<lparr>totalTilesDestroyed :=
                                             totalTilesDestroyed (tm_stats tm) + 1\<rparr>,
                tm_currentMemoryUsage :=
                  tm_currentMemoryUsage tm - estimateTileMemoryUsage t\<rparr>))"

definition updateTileAccessOrder :: "nat \<Rightarrow> tiling_manager \<Rightarrow> tiling_manager" where
  "updateTileAccessOrder ref tm =
     tm\<lparr>tm_tileAccessOrder := remove1 ref (tm_tileAccessOrder tm) @ [ref]\<rparr>"

text \<open>
  One round of the loop of \<open>enforceMemoryLimit\<close>: shift the oldest entry off the access
  order and, if its key is still in the map, remove that tile and count an eviction.
\<close>

definition evict_oldest :: "tiling_manager \<Rightarrow> tiling_manager" where
  "evict_oldest tm = (case tm_tileAccessOrder tm of
       [] \<Rightarrow> tm
     | oldest # rest \<Rightarrow>
         (let tm1 = tm\<lparr>tm_tileAccessOrder := rest\<rparr>
          in case tm_store tm oldest of
               None \<Rightarrow> tm1
             | Some oldestTile \<Rightarrow>
                 (if tm_tiles tm1 (key_of oldestTile) \<noteq> None
                  then (let tm2 = removeTile (key_of oldestTile) tm1
                        in tm2\<lparr>tm_stats := (tm_stats tm2)\<lparr>tilesEvicted :=
                                                           tilesEvicted (tm_stats tm2) + 1\<rparr>\<rparr>)
                  else tm1)))"

function enforceMemoryLimit :: "tiling_manager \<Rightarrow> tiling_manager" where
  "enforceMemoryLimit tm =
     (if tm_currentMemoryUsage tm > tm_maxMemoryUsage tm \<and> tm_tileAccessOrder tm \<noteq> []
      then enforceMemoryLimit (evict_oldest tm)
      else tm)"
  by pat_completeness auto
termination
proof (relation "measure (\<lambda>tm. length (tm_tileAccessOrder tm))")
  show "wf (measure (\<lambda>tm. length (tm_tileAccessOrder tm)))" by simp
next
  fix tm :: tiling_manager
  assume "tm_maxMemoryUsage tm < tm_currentMemoryUsage tm \<and> tm_tileAccessOrder tm \<noteq> []"
  then obtain oldest rest where o: "tm_tileAccessOrder tm = oldest # rest"
    by (cases "tm_tileAccessOrder tm") auto
  have "length (tm_tileAccessOrder (evict_oldest tm)) \<le> length rest"
    using o
    by (auto simp: evict_oldest_def removeTile_def Let_def length_remove1
        split: option.splits)
  then show "(evict_oldest tm, tm) \<in> measure (\<lambda>tm. length (tm_tileAccessOrder tm))"
    using o by simp
qed

declare enforceMemoryLimit.simps [simp del]

text \<open>
  \<open>getOrCreateTile\<close> returns the tile's reference.  A hit touches the tile and counts;
  a miss creates the tile with the size clipped to the layer's bounds, registers it,
  appends it to the access order, adds its memory and enforces the limit.
\<close>

definition getOrCreateTile ::
  "rat \<Rightarrow> rat \<Rightarrow> tile_layer \<Rightarrow> tiling_manager \<Rightarrow> nat \<times> tiling_manager" where
  "getOrCreateTile x y layer tm =
     (let tileX = \<lfloor>x / tm_tileSize tm\<rfloor>;
          tileY = \<lfloor>y / tm_tileSize tm\<rfloor>;
          key = tile_key (tl_id layer) tileX tileY
      in case tm_tiles tm key of
           Some ref \<Rightarrow>
             (ref,
              tm\<lparr>tm_store := (case tm_store tm ref of
                                 None \<Rightarrow> tm_store tm
                               | Some t \<Rightarrow> (tm_store tm)(ref \<mapsto> access t)),
                 tm_stats := (tm_stats tm)\<lparr>cacheHits := cacheHits (tm_stats tm) + 1\<rparr>\<rparr>)
         | None \<Rightarrow>
             (let tileWidth = min (tm_tileSize tm)
                                (r_x (tl_bounds layer) + r_width (tl_bounds layer) - x);
                  tileHeight = min (tm_tileSize tm)
                                 (r_y (tl_bounds layer) + r_height (tl_bounds layer) - y);
                  t = new_Tile x y tileWidth tileHeight layer tileX tileY;
                  ref = tm_next tm;
                  tm1 = tm\<lparr>tm_store := (tm_store tm)(ref \<mapsto> t),
                           tm_next := ref + 1,
                           tm_tiles := (tm_tiles tm)(key \<mapsto> ref),
                           tm_layerTiles :=
                             (case tm_layerTiles tm (tl_id layer) of
                                None \<Rightarrow> (tm_layerTiles tm)(tl_id layer \<mapsto> [key])
                              | Some keys \<Rightarrow>
                                  (tm_layerTiles tm)
                                    (tl_id layer \<mapsto> (if key \<in> set keys then keys
                                                        else keys @ [key])))\<rparr>;
                  tm2 = updateTileAccessOrder ref tm1;
                  tm3 = tm2\<lparr>tm_stats := (tm_stats tm2)\<lparr>
                              totalTilesCreated := totalTilesCreated (tm_stats tm2) + 1,
                              cacheMisses := cacheMisses (tm_stats tm2) + 1\<rparr>,
                            tm_currentMemoryUsage :=
                              tm_currentMemoryUsage tm2 + estimateTileMemoryUsage t\<rparr>
              in (ref, enforceMemoryLimit tm3)))"

definition shouldUpdateTile :: "tile \<Rightarrow> tile_layer \<Rightarrow> bool" where
  "shouldUpdateTile t layer =
     (if t_isDirty t then True
      else (case tl_dirtyRegion layer of
              None \<Rightarrow> False
            | Some r \<Rightarrow> tile_intersectsRect t r))"

text \<open>The body of the inner loop of \<open>generateTilesForLayer\<close> for the cell at \<open>(x, y)\<close>.\<close>

definition tile_cell :: "rat \<Rightarrow> rat \<Rightarrow> tile_layer \<Rightarrow> tiling_manager \<Rightarrow> nat \<times> tiling_manager" where
  "tile_cell x y layer tm =
     (let (ref, tm1) = getOrCreateTile x y layer tm
      in case tm_store tm1 ref of
           None \<Rightarrow> (ref, tm1)
         | Some t \<Rightarrow>
             (if tl_needsRepaint layer \<or> shouldUpdateTile t layer
              then (ref, tm1\<lparr>tm_store := (tm_store tm1)(ref \<mapsto> markDirty t)\<rparr>)
              else (ref, tm1)))"

text \<open>
  The two loops.  The step \<open>ts\<close> is the manager's tile size, which no operation changes.
  With a step that is not positive a loop that is entered never ends; that is the result
  \<open>None\<close>.
\<close>

function tile_row ::
  "rat \<Rightarrow> rat \<Rightarrow> rat \<Rightarrow> rat \<Rightarrow> tile_layer \<Rightarrow> tiling_manager \<Rightarrow> (nat list \<times> tiling_manager) option"
where
  "tile_row ts x endX y layer tm =
     (if x < endX then
        (if ts \<le> 0 then None
         else (let (ref, tm1) = tile_cell x y layer tm
               in case tile_row ts (x + ts) endX y layer tm1 of
                    None \<Rightarrow> None
                  | Some (refs, tm2) \<Rightarrow> Some (ref # refs, tm2)))
      else Some ([], tm))"
  by pat_completeness auto
termination
proof (relation "measure (\<lambda>(ts, x, endX, y, layer, tm). nat \<lceil>(endX - x) / ts\<rceil>)")
  show "wf (measure (\<lambda>(ts, x, endX, y, layer, tm). nat \<lceil>(endX - x) / ts\<rceil>))" by simp
next
  fix ts x endX y :: rat and layer :: tile_layer and tm tm1 :: tiling_manager
    and p :: "nat \<times> tiling_manager" and ref :: nat
  assume lt: "x < endX" and pos: "\<not> ts \<le> 0"
  have e: "(endX - (x + ts)) / ts = (endX - x) / ts - 1"
    using pos by (simp add: field_simps)
  have "0 < (endX - x) / ts" using lt pos by simp
  then have "0 < \<lceil>(endX - x) / ts\<rceil>" by simp
  then show "((ts, x + ts, endX, y, layer, tm1), (ts, x, endX, y, layer, tm))
      \<in> measure (\<lambda>(ts, x, endX, y, layer, tm). nat \<lceil>(endX - x) / ts\<rceil>)"
    by (simp add: e)
qed

declare tile_row.simps [simp del]

function tile_rows ::
  "rat \<Rightarrow> rat \<Rightarrow> rat \<Rightarrow> rat \<Rightarrow> rat \<Rightarrow> tile_layer \<Rightarrow> tiling_manager
   \<Rightarrow> (nat list \<times> tiling_manager) option"
where
  "tile_rows ts y endY startX endX layer tm =
     (if y < endY then
        (if ts \<le> 0 then None
         else (case tile_row ts startX endX y layer tm of
                 None \<Rightarrow> None
               | Some (row, tm1) \<Rightarrow>
                   (case tile_rows ts (y + ts) endY startX endX layer tm1 of
                      None \<Rightarrow> None
                    | Some (refs, tm2) \<Rightarrow> Some (row @ refs, tm2))))
      else Some ([], tm))"
  by pat_completeness auto
termination
proof (relation "measure (\<lambda>(ts, y, endY, startX, endX, layer, tm). nat \<lceil>(endY - y) / ts\<rceil>)")
  show "wf (measure (\<lambda>(ts, y, endY, startX, endX, layer, tm). nat \<lceil>(endY - y) / ts\<rceil>))"
    by simp
next
  fix ts y endY startX endX :: rat and layer :: tile_layer and tm tm1 :: tiling_manager
    and p :: "nat list \<times> tiling_manager" and row :: "nat list"
  assume lt: "y < endY" and pos: "\<not> ts \<le> 0"
  have e: "(endY - (y + ts)) / ts = (endY - y) / ts - 1"
    using pos by (simp add: field_simps)
  have "0 < (endY - y) / ts" using lt pos by simp
  then have "0 < \<lceil>(endY - y) / ts\<rceil>" by simp
  then show "((ts, y + ts, endY, startX, endX, layer, tm1), (ts, y, endY, startX, endX, layer, tm))
      \<in> measure (\<lambda>(ts, y, endY, startX, endX, layer, tm). nat \<lceil>(endY - y) / ts\<rceil>)"
    by (simp add: e)
qed

declare tile_rows.simps [simp del]

text \<open>The grid range of a layer: its absolute bounds if set, else its bounds, aligned.\<close>

definition grid_bounds :: "tile_layer \<Rightarrow> rect" where
  "grid_bounds layer = (case tl_absoluteBounds layer of None \<Rightarrow> tl_bounds layer | Some b \<Rightarrow> b)"

definition grid_start :: "rat \<Rightarrow> rat \<Rightarrow> rat" where
  "grid_start ts v = of_int \<lfloor>v / ts\<rfloor> * ts"

definition grid_end :: "rat \<Rightarrow> rat \<Rightarrow> rat" where
  "grid_end ts v = of_int \<lceil>v / ts\<rceil> * ts"

definition cleanupUnusedTiles :: "tile_layer \<Rightarrow> tiling_manager \<Rightarrow> tiling_manager" where
  "cleanupUnusedTiles layer tm = (case tm_layerTiles tm (tl_id layer) of
       None \<Rightarrow> tm
     | Some layerTileKeys \<Rightarrow>
         (let b = grid_bounds layer;
              ts = tm_tileSize tm;
              startX = grid_start ts (r_x b);
              startY = grid_start ts (r_y b);
              endX = grid_end ts (r_x b + r_width b);
              endY = grid_end ts (r_y b + r_height b);
              tilesToRemove = filter (\<lambda>key.
                  case tm_tiles tm key of
                    None \<Rightarrow> False
                  | Some ref \<Rightarrow> (case tm_store tm ref of
                        None \<Rightarrow> False
                      | Some t \<Rightarrow> t_x t < startX \<or> t_x t \<ge> endX \<or>
                                  t_y t < startY \<or> t_y t \<ge> endY)) layerTileKeys
          in foldl (\<lambda>m key. removeTile key m) tm tilesToRemove))"

definition generateTilesForLayer ::
  "tile_layer \<Rightarrow> tiling_manager \<Rightarrow> (nat list \<times> tiling_manager) option" where
  "generateTilesForLayer layer tm =
     (let b = grid_bounds layer;
          ts = tm_tileSize tm;
          startX = grid_start ts (r_x b);
          startY = grid_start ts (r_y b);
          endX = grid_end ts (r_x b + r_width b);
          endY = grid_end ts (r_y b + r_height b)
      in case tile_rows ts startY endY startX endX layer tm of
           None \<Rightarrow> None
         | Some (tiles, tm1) \<Rightarrow> Some (tiles, cleanupUnusedTiles layer tm1))"

section \<open>Rasterizer\<close>

subsection \<open>Tile signatures\<close>

definition calculateLayerContentHash :: "tile_layer \<Rightarrow> string" where
  "calculateLayerContentHash layer =
     foldl (\<lambda>hash r. hash @ ''_'' @ record_type r)
       (show_nat (length (tl_paintRecords layer))) (tl_paintRecords layer)"

definition generateTileSignature :: "tile \<Rightarrow> string" where
  "generateTileSignature t =
     tl_id (t_layer t) @ ''_'' @ show_int (t_tileX t) @ ''_'' @ show_int (t_tileY t) @ ''_'' @
     calculateLayerContentHash (t_layer t)"

subsection \<open>Executing paint records\<close>

text \<open>
  \<open>execute\<close> returns the drawing surface after the record has been drawn.  An exception
  leaves through the \<open>finally\<close> block, which still restores the surface state; the
  result is then the error with the surface as it is at that point.
\<close>

definition path_op :: "path_command \<Rightarrow> canvas_op list" where
  "path_op c = (case c of
       PMoveTo x y \<Rightarrow> [MoveTo x y]
     | PLineTo x y \<Rightarrow> [LineTo x y]
     | PArc x y r a b \<Rightarrow> [Arc x y r a b]
     | PQuadraticCurveTo a b x y \<Rightarrow> [QuadraticCurveTo a b x y]
     | PBezierCurveTo a b c d x y \<Rightarrow> [BezierCurveTo a b c d x y]
     | PClosePath \<Rightarrow> [ClosePath]
     | POther _ \<Rightarrow> [])"

fun execute :: "paint_record \<Rightarrow> canvas \<Rightarrow> (js_error \<times> canvas) + canvas"
  and executePaintOperation :: "paint_record \<Rightarrow> canvas \<Rightarrow> (js_error \<times> canvas) + canvas"
where
  "execute r ctx =
     (if \<not> pr_visible (common r) \<or> pr_opacity (common r) \<le> 0 then Inr ctx
      else
        (let ctx1 = ctx @ [Save]
               @ (case pr_clipRect (common r) of
                    None \<Rightarrow> []
                  | Some c \<Rightarrow> [BeginPath, RectPath (r_x c) (r_y c) (r_width c) (r_height c), Clip])
               @ [MulGlobalAlpha (pr_opacity (common r))]
               @ (case pr_transform (common r) of None \<Rightarrow> [] | Some m \<Rightarrow> [SetTransform m])
         in case executePaintOperation r ctx1 of
              Inl (e, ctx2) \<Rightarrow> Inl (e, ctx2 @ [Restore])
            | Inr ctx2 \<Rightarrow> Inr (ctx2 @ [Restore])))"
| "executePaintOperation (RectPaintRecord c fill stroke lw isFilled isStroked) ctx =
     Inr (ctx
       @ (if isFilled
          then [SetFillStyle fill,
                FillRect (r_x (pr_bounds c)) (r_y (pr_bounds c)) (r_width (pr_bounds c))
                  (r_height (pr_bounds c))]
          else [])
       @ (if isStroked
          then [SetStrokeStyle stroke, SetLineWidth lw,
                StrokeRect (r_x (pr_bounds c)) (r_y (pr_bounds c)) (r_width (pr_bounds c))
                  (r_height (pr_bounds c))]
          else []))"
| "executePaintOperation (TextPaintRecord c txt fnt fill mw align baseline) ctx =
     Inr (ctx @ [SetFont fnt, SetFillStyle fill, SetTextAlign align, SetTextBaseline baseline,
                 FillText txt (r_x (pr_bounds c)) (r_y (pr_bounds c)) mw])"
| "executePaintOperation (ImagePaintRecord c img src) ctx =
     (case img of
        None \<Rightarrow> Inr ctx
      | Some i \<Rightarrow> Inr (ctx @ [DrawImage i src (r_x (pr_bounds c)) (r_y (pr_bounds c))
                                 (r_width (pr_bounds c)) (r_height (pr_bounds c))]))"
| "executePaintOperation (PathPaintRecord c p fill stroke lw isFilled isStroked) ctx =
     (if p = [] then Inr ctx
      else Inr (ctx @ [BeginPath] @ concat (map path_op p)
             @ (case fill of
                  None \<Rightarrow> []
                | Some f \<Rightarrow> if isFilled then [SetFillStyle f, Fill] else [])
             @ (if isStroked then [SetStrokeStyle (Some stroke), SetLineWidth lw, Stroke]
                else [])))"
| "executePaintOperation (ShadowPaintRecord c color blur offX offY target) ctx =
     (case target of
        None \<Rightarrow> Inr ctx
      | Some t \<Rightarrow> execute t (ctx @ [SetShadowColor color, SetShadowBlur blur,
                                    SetShadowOffsetX offX, SetShadowOffsetY offY]))"
| "executePaintOperation (BaseRecord c) ctx =
     Inl (Error ''executePaintOperation must be implemented by subclass'', ctx)"

declare execute.simps [simp del]

subsection \<open>Rasterizing the records of a layer into a tile\<close>

definition isRecordInViewport :: "paint_record \<Rightarrow> rect \<Rightarrow> bool" where
  "isRecordInViewport r viewport =
     (\<not> (r_x (bounds r) > r_x viewport + r_width viewport \<or>
         r_x (bounds r) + r_width (bounds r) < r_x viewport \<or>
         r_y (bounds r) > r_y viewport + r_height viewport \<or>
         r_y (bounds r) + r_height (bounds r) < r_y viewport))"

definition translated :: "rect \<Rightarrow> rect \<Rightarrow> rect" where
  "translated originalBounds viewport =
     \<lparr>r_x = r_x originalBounds - r_x viewport, r_y = r_y originalBounds - r_y viewport,
      r_width = r_width originalBounds, r_height = r_height originalBounds\<rparr>"

text \<open>
  \<open>rasterizePaintRecords\<close> works on the records of the layer in place: it assigns the
  translated bounds to the record, executes it, and assigns the saved bounds back.  The
  result carries the records as the call leaves them.  When \<open>execute\<close> raises, the loop
  is left at once and the record in hand keeps the translated bounds.
\<close>

fun rasterizePaintRecords ::
  "canvas \<Rightarrow> paint_record list \<Rightarrow> rect
   \<Rightarrow> (js_error \<times> canvas \<times> paint_record list) + (canvas \<times> paint_record list)" where
  "rasterizePaintRecords ctx [] viewport = Inr (ctx, [])"
| "rasterizePaintRecords ctx (r # rs) viewport =
     (if pr_visible (common r) \<and> isRecordInViewport r viewport then
        (let originalBounds = bounds r;
             r1 = set_bounds (translated originalBounds viewport) r
         in case execute r1 ctx of
              Inl (e, ctx1) \<Rightarrow> Inl (e, ctx1, r1 # rs)
            | Inr ctx1 \<Rightarrow>
                (let r2 = set_bounds originalBounds r1
                 in case rasterizePaintRecords ctx1 rs viewport of
                      Inl (e, ctx2, rs') \<Rightarrow> Inl (e, ctx2, r2 # rs')
                    | Inr (ctx2, rs') \<Rightarrow> Inr (ctx2, r2 # rs')))
      else
        (case rasterizePaintRecords ctx rs viewport of
           Inl (e, ctx2, rs') \<Rightarrow> Inl (e, ctx2, r # rs')
         | Inr (ctx2, rs') \<Rightarrow> Inr (ctx2, r # rs')))"

section \<open>GPU simulator\<close>

text \<open>
  A draw quad.  The texture is given by its identity (\<open>None\<close> for \<open>null\<close>), which is
  what \<open>===\<close> compares.  The per-quad counters that \<open>drawSingleQuad\<close> writes
  (\<open>drawCallCount\<close>, \<open>lastDrawTime\<close>, \<open>needsUpdate\<close>) are left out: batching and the
  frame statistics do not read them.
\<close>

record draw_quad =
  q_x :: rat
  q_y :: rat
  q_width :: rat
  q_height :: rat
  q_transform :: matrix
  q_texture :: "string option"
  q_color :: string
  q_opacity :: rat
  q_blendMode :: string
  q_shader :: string
  q_clipRect :: "rect option"
  q_visible :: bool

record batch =
  b_quads :: "draw_quad list"
  b_shader :: string
  b_texture :: "string option"
  b_blendMode :: string

record gpu_stats =
  totalDrawCalls :: nat
  totalQuads :: nat
  totalTriangles :: nat
  totalPixels :: rat
  textureSwaps :: nat
  shaderSwitches :: nat
  batchCount :: nat

record gpu =
  gpu_enableBatching :: bool
  gpu_currentBatch :: batch
  gpu_commandBuffer :: "batch list"
  gpu_stats :: gpu_stats
  gpu_currentShader :: "string option"
  gpu_currentTexture :: "string option"

definition resetFrameStats :: gpu_stats where
  "resetFrameStats = \<lparr>totalDrawCalls = 0, totalQuads = 0, totalTriangles = 0, totalPixels = 0,
     textureSwaps = 0, shaderSwitches = 0, batchCount = 0\<rparr>"

definition new_GPUSimulator :: "bool option \<Rightarrow> gpu" where
  "new_GPUSimulator enableBatching =
     \<lparr>gpu_enableBatching = (enableBatching \<noteq> Some False),
      gpu_currentBatch = \<lparr>b_quads = [], b_shader = ''default'', b_texture = None,
                           b_blendMode = ''source-over''\<rparr>,
      gpu_commandBuffer = [],
      gpu_stats = resetFrameStats,
      gpu_currentShader = None,
      gpu_currentTexture = None\<rparr>"

definition canBatchWithCurrent :: "draw_quad \<Rightarrow> gpu \<Rightarrow> bool" where
  "canBatchWithCurrent quad g =
     (if b_quads (gpu_currentBatch g) = [] then False
      else b_shader (gpu_currentBatch g) = q_shader quad \<and>
           b_texture (gpu_currentBatch g) = q_texture quad \<and>
           b_blendMode (gpu_currentBatch g) = q_blendMode quad)"

definition flushCurrentBatch :: "gpu \<Rightarrow> gpu" where
  "flushCurrentBatch g =
     (if b_quads (gpu_currentBatch g) = [] then g
      else g\<lparr>gpu_commandBuffer := gpu_commandBuffer g @ [gpu_currentBatch g],
             gpu_stats := (gpu_stats g)\<lparr>batchCount := batchCount (gpu_stats g) + 1\<rparr>,
             gpu_currentBatch := (gpu_currentBatch g)\<lparr>b_quads := []\<rparr>\<rparr>)"

definition submitDrawQuad :: "draw_quad \<Rightarrow> gpu \<Rightarrow> gpu" where
  "submitDrawQuad quad g =
     (if \<not> q_visible quad then g
      else if gpu_enableBatching g \<and> canBatchWithCurrent quad g then
        g\<lparr>gpu_currentBatch :=
            (gpu_currentBatch g)\<lparr>b_quads := b_quads (gpu_currentBatch g) @ [quad]\<rparr>\<rparr>
      else
        (flushCurrentBatch g)\<lparr>gpu_currentBatch :=
            \<lparr>b_quads = [quad], b_shader = q_shader quad, b_texture = q_texture quad,
             b_blendMode = q_blendMode quad\<rparr>\<rparr>)"

definition bindShader :: "string \<Rightarrow> gpu \<Rightarrow> gpu" where
  "bindShader shaderName g =
     (if gpu_currentShader g \<noteq> Some shaderName
      then g\<lparr>gpu_currentShader := Some shaderName,
             gpu_stats := (gpu_stats g)\<lparr>shaderSwitches := shaderSwitches (gpu_stats g) + 1\<rparr>\<rparr>
      else g)"

definition bindTexture :: "string \<Rightarrow> gpu \<Rightarrow> gpu" where
  "bindTexture texture g =
     (if gpu_currentTexture g \<noteq> Some texture
      then g\<lparr>gpu_currentTexture := Some texture,
             gpu_stats := (gpu_stats g)\<lparr>textureSwaps := textureSwaps (gpu_stats g) + 1\<rparr>\<rparr>
      else g)"

definition drawSingleQuad :: "canvas \<Rightarrow> draw_quad \<Rightarrow> canvas" where
  "drawSingleQuad ctx quad =
     ctx @ [Save, Transform (q_transform quad), MulGlobalAlpha (q_opacity quad)]
       @ (case q_clipRect quad of
            None \<Rightarrow> []
          | Some c \<Rightarrow> [BeginPath, RectPath (r_x c) (r_y c) (r_width c) (r_height c), Clip])
       @ (case q_texture quad of
            Some t \<Rightarrow> [DrawImage t None 0 0 (q_width quad) (q_height quad)]
          | None \<Rightarrow> [SetFillStyle (q_color quad), FillRect 0 0 (q_width quad) (q_height quad)])
       @ [Restore]"

text \<open>The bounding box of a quad under its transform.\<close>

definition getBounds :: "draw_quad \<Rightarrow> rect" where
  "getBounds quad = (case q_transform quad of (a, b, c, d, e, f) \<Rightarrow>
     (let x = q_x quad; y = q_y quad; w = q_width quad; h = q_height quad;
          xs = [x * a + y * c + e, (x + w) * a + y * c + e,
                (x + w) * a + (y + h) * c + e, x * a + (y + h) * c + e];
          ys = [x * b + y * d + f, (x + w) * b + y * d + f,
                (x + w) * b + (y + h) * d + f, x * b + (y + h) * d + f];
          minX = fold min xs (hd xs); maxX = fold max xs (hd xs);
          minY = fold min ys (hd ys); maxY = fold max ys (hd ys)
      in \<lparr>r_x = minX, r_y = minY, r_width = maxX - minX, r_height = maxY - minY\<rparr>))"

definition visible_pixels :: "rect \<Rightarrow> draw_quad \<Rightarrow> rat" where
  "visible_pixels viewport quad =
     (let b = getBounds quad;
          visibleWidth = max 0 (min (r_x b + r_width b) (r_x viewport + r_width viewport)
                                - max (r_x b) (r_x viewport));
          visibleHeight = max 0 (min (r_y b + r_height b) (r_y viewport + r_height viewport)
                                 - max (r_y b) (r_y viewport))
      in visibleWidth * visibleHeight)"

definition executeBatchDraw :: "canvas \<Rightarrow> batch \<Rightarrow> rect \<Rightarrow> gpu \<Rightarrow> canvas \<times> gpu" where
  "executeBatchDraw ctx command viewport g =
     (if b_quads command = [] then (ctx, g)
      else
        (let ctx1 = ctx @ [SetGlobalCompositeOperation (b_blendMode command)];
             g1 = bindShader (b_shader command) g;
             g2 = (case b_texture command of None \<Rightarrow> g1 | Some t \<Rightarrow> bindTexture t g1);
             ctx2 = foldl drawSingleQuad ctx1 (b_quads command);
             st = gpu_stats g2
         in (ctx2,
             g2\<lparr>gpu_stats := st\<lparr>
                  totalDrawCalls := totalDrawCalls st + 1,
                  totalQuads := totalQuads st + length (b_quads command),
                  totalTriangles := totalTriangles st + length (b_quads command) * 2,
                  totalPixels := totalPixels st
                     + foldl (\<lambda>s q. s + visible_pixels viewport q) 0 (b_quads command)\<rparr>\<rparr>)))"

definition processCommandBuffer :: "canvas \<Rightarrow> rect \<Rightarrow> gpu \<Rightarrow> canvas \<times> gpu" where
  "processCommandBuffer ctx viewport g =
     (let (ctx1, g1) = foldl (\<lambda>(c, s) command. executeBatchDraw c command viewport s) (ctx, g)
                         (gpu_commandBuffer g)
      in (ctx1, g1\<lparr>gpu_commandBuffer := []\<rparr>))"

section \<open>Compositor\<close>












section \<open>Example inputs\<close>

text \<open>A text node with a background, a border and a box shadow, as layout hands it over.\<close>

definition shadowed_layout :: rect where
  "shadowed_layout = \<lparr>r_x = 10, r_y = 10, r_width = 200, r_height = 100\<rparr>"

definition shadowed_node :: layout_node where
  "shadowed_node =
     LayoutNode [''background-color'' \<mapsto> ''#ff0000'',
                 ''box-shadow'' \<mapsto> ''rgba(0, 0, 0, 0.5) 2px 3px 4px'']
       (Some shadowed_layout) (Some \<lparr>bm_border_top = 1\<rparr>)
       (Some \<lparr>e_nodeType = 3, e_tagName = None, e_data = Some ''Hi''\<rparr>) []"

definition shadowed_layer :: layer where
  "shadowed_layer = new_Layer (no_options\<lparr>o_id := Some ''layer_1''\<rparr>) []"

definition zero_stats :: generator_stats where
  "zero_stats = \<lparr>g_totalLayers = 0, g_generatedRecords = 0, g_optimizedRecords = 0,
     g_culledRecords = 0\<rparr>"

text \<open>A page-sized layer and two tiles of it whose single rectangle differs in colour only.\<close>

definition page_bounds :: rect where
  "page_bounds = \<lparr>r_x = 0, r_y = 0, r_width = 800, r_height = 600\<rparr>"

definition page_layer :: tile_layer where
  "page_layer = \<lparr>tl_id = ''root'', tl_bounds = page_bounds, tl_absoluteBounds = Some page_bounds,
     tl_needsRepaint = True, tl_dirtyRegion = None, tl_paintRecords = [], tl_zIndex = 0,
     tl_opacity = 1, tl_transform = identity_matrix, tl_clipRect = None,
     tl_isVisibleInViewport = False\<rparr>"

definition coloured_rect :: "string \<Rightarrow> paint_record" where
  "coloured_rect colour =
     new_RectPaintRecord (no_params\<lparr>p_bounds := Some \<lparr>r_x = 300, r_y = 10, r_width = 50,
                                                         r_height = 40\<rparr>\<rparr>)
       (Some colour) None None None None"

definition red_tile :: tile where
  "red_tile = new_Tile 256 0 256 256
     (page_layer\<lparr>tl_paintRecords := [coloured_rect ''#ff0000'']\<rparr>) 1 0"

definition green_tile :: tile where
  "green_tile = new_Tile 256 0 256 256
     (page_layer\<lparr>tl_paintRecords := [coloured_rect ''#00ff00'']\<rparr>) 1 0"

text \<open>Tiling managers: the default one with edge 256, and one whose budget holds two tiles.\<close>

definition edge_256 :: tiling_options where
  "edge_256 = \<lparr>opt_tileSize = Some 256, opt_maxTiles = None, opt_maxMemoryUsage = None\<rparr>"

definition two_tile_budget :: tiling_options where
  "two_tile_budget = \<lparr>opt_tileSize = Some 256, opt_maxTiles = None,
     opt_maxMemoryUsage = Some 600000\<rparr>"

text \<open>The pixel origins of the tiles a call handed out, read from the store.\<close>

definition tile_origins ::
  "(nat list \<times> tiling_manager) option \<Rightarrow> (rat \<times> rat) option list option" where
  "tile_origins res =
     map_option (\<lambda>(refs, tm). map (\<lambda>r. map_option (\<lambda>t. (t_x t, t_y t)) (tm_store tm r)) refs)
       res"

text \<open>
  Four requests in a row on the small manager: tile A at \<open>(0, 0)\<close>, tile B at
  \<open>(256, 0)\<close>, tile A again, then tile C at \<open>(512, 0)\<close>.
\<close>

definition after_A :: "nat \<times> tiling_manager" where
  "after_A = getOrCreateTile 0 0 page_layer (new_TilingManager two_tile_budget)"

definition after_B :: "nat \<times> tiling_manager" where
  "after_B = getOrCreateTile 256 0 page_layer (snd after_A)"

definition after_A_again :: "nat \<times> tiling_manager" where
  "after_A_again = getOrCreateTile 0 0 page_layer (snd after_B)"

definition after_C :: "nat \<times> tiling_manager" where
  "after_C = getOrCreateTile 512 0 page_layer (snd after_A_again)"

text \<open>Two quads that share shader, texture and blend mode, and one with another shader.\<close>

definition plain_quad :: draw_quad where
  "plain_quad = \<lparr>q_x = 0, q_y = 0, q_width = 100, q_height = 100, q_transform = identity_matrix,
     q_texture = None, q_color = ''rgba(255, 255, 255, 1)'', q_opacity = 1,
     q_blendMode = ''source-over'', q_shader = ''default'', q_clipRect = None,
     q_visible = True\<rparr>"

definition solid_quad :: draw_quad where
  "solid_quad = plain_quad\<lparr>q_shader := ''solid''\<rparr>"

definition open_batch_gpu :: gpu where
  "open_batch_gpu = submitDrawQuad plain_quad (new_GPUSimulator None)"




definition tile_viewport :: rect where
  "tile_viewport = \<lparr>r_x = 256, r_y = 0, r_width = 256, r_height = 256\<rparr>"

section \<open>Bookkeeping of the tiling manager\<close>

text \<open>
  What happens to a tiling manager between two frames is a sequence of events: a tile
  is requested at a position of a layer (\<open>getOrCreateTile\<close>), or the rasterizer
  finishes a tile, which attaches the backing canvas to the tile object and marks it
  clean.  A tile object can be finished after the manager has let go of it; the event
  names it by its reference.
\<close>

definition rasterized_with :: "string option \<Rightarrow> tile \<Rightarrow> tile" where
  "rasterized_with content t = markClean (t\<lparr>t_rasterizedContent := content\<rparr>)"

definition tile_rasterized :: "nat \<Rightarrow> string option \<Rightarrow> tiling_manager \<Rightarrow> tiling_manager" where
  "tile_rasterized ref content tm = (case tm_store tm ref of
       None \<Rightarrow> tm
     | Some t \<Rightarrow> tm\<lparr>tm_store := (tm_store tm)(ref \<mapsto> rasterized_with content t)\<rparr>)"

datatype tile_event = Request rat rat tile_layer | Rasterized nat "string option"

fun run_events :: "tile_event list \<Rightarrow> tiling_manager \<Rightarrow> tiling_manager" where
  "run_events [] tm = tm"
| "run_events (Request x y layer # events) tm =
     run_events events (snd (getOrCreateTile x y layer tm))"
| "run_events (Rasterized ref content # events) tm =
     run_events events (tile_rasterized ref content tm)"

text \<open>
  The notions used to state what eviction achieves.  The memory of a tile is
  \<open>width * height * 4\<close>; the tracked memory is the sum over the tiles in the access
  order.  \<open>tm_inv\<close> says that the access order, the tile map and the memory counter
  describe the same set of tiles: the order has no duplicates, every tile in it is stored
  and is the entry of its own key in the map, every entry of the map is in the order, and
  the counter equals the tracked memory.
\<close>

definition tile_memory :: "tiling_manager \<Rightarrow> nat \<Rightarrow> rat" where
  "tile_memory tm r = (case tm_store tm r of
       None \<Rightarrow> 0
     | Some t \<Rightarrow> t_width t * t_height t * 4)"

definition tracked_memory :: "tiling_manager \<Rightarrow> rat" where
  "tracked_memory tm = sum_list (map (tile_memory tm) (tm_tileAccessOrder tm))"

definition tm_inv :: "tiling_manager \<Rightarrow> bool" where
  "tm_inv tm \<longleftrightarrow>
     distinct (tm_tileAccessOrder tm)
     \<and> (\<forall>r \<in> set (tm_tileAccessOrder tm).
           r < tm_next tm \<and> (\<exists>t. tm_store tm r = Some t \<and> tm_tiles tm (key_of t) = Some r))
     \<and> (\<forall>k r. tm_tiles tm k = Some r \<longrightarrow>
           r \<in> set (tm_tileAccessOrder tm) \<and> (\<exists>t. tm_store tm r = Some t \<and> key_of t = k))
     \<and> tm_currentMemoryUsage tm = tracked_memory tm"

text \<open>
  References are handed out in the order in which tiles are created, starting at 0.
  The access order is in creation order when it lists the references from some \<open>k\<close> up
  to the last one created: the tiles the manager holds are then the most recently
  created ones, the oldest first.
\<close>

definition creation_order :: "tiling_manager \<Rightarrow> bool" where
  "creation_order tm \<longleftrightarrow>
     tm_tileAccessOrder tm = [tm_next tm - length (tm_tileAccessOrder tm) ..< tm_next tm]"

text \<open>
  A tile is evicted in a state when its backing storage has been released, its key has no
  entry in the map and it is not in the access order.
\<close>

definition evicted :: "tiling_manager \<Rightarrow> nat \<Rightarrow> bool" where
  "evicted tm r = (case tm_store tm r of
       None \<Rightarrow> False
     | Some t \<Rightarrow> t_rasterizedContent t = None \<and> tm_tiles tm (key_of t) = None
                 \<and> r \<notin> set (tm_tileAccessOrder tm))"

definition within_budget :: "tiling_manager \<Rightarrow> bool" where
  "within_budget tm \<longleftrightarrow>
     tm_currentMemoryUsage tm \<le> tm_maxMemoryUsage tm \<or> tm_tiles tm = Map.empty"

text \<open>
  \<open>evicts tm tm' n\<close>: from \<open>tm\<close> to \<open>tm'\<close> exactly the first \<open>n\<close> tiles of the
  access order were evicted and counted, the counter went down by their memory, and
  before each of these evictions the counter still exceeded the budget.
\<close>

definition evicts :: "tiling_manager \<Rightarrow> tiling_manager \<Rightarrow> nat \<Rightarrow> bool" where
  "evicts tm tm' n \<longleftrightarrow>
     n \<le> length (tm_tileAccessOrder tm)
     \<and> tm_tileAccessOrder tm' = drop n (tm_tileAccessOrder tm)
     \<and> (\<forall>r \<in> set (take n (tm_tileAccessOrder tm)). evicted tm' r)
     \<and> tilesEvicted (tm_stats tm') = tilesEvicted (tm_stats tm) + n
     \<and> tm_currentMemoryUsage tm'
         = tm_currentMemoryUsage tm
           - sum_list (map (tile_memory tm) (take n (tm_tileAccessOrder tm)))
     \<and> (\<forall>m < n. tm_maxMemoryUsage tm
            < tm_currentMemoryUsage tm
              - sum_list (map (tile_memory tm) (take m (tm_tileAccessOrder tm))))"

text \<open>
  The state \<open>getOrCreateTile\<close> reaches on a miss just before it calls
  \<open>enforceMemoryLimit\<close>: the new tile is stored, registered, appended to the access
  order and counted.
\<close>

definition register_tile :: "rat \<Rightarrow> rat \<Rightarrow> tile_layer \<Rightarrow> tiling_manager \<Rightarrow> tiling_manager" where
  "register_tile x y layer tm =
     (let tileX = \<lfloor>x / tm_tileSize tm\<rfloor>;
          tileY = \<lfloor>y / tm_tileSize tm\<rfloor>;
          key = tile_key (tl_id layer) tileX tileY;
          tileWidth = min (tm_tileSize tm) (r_x (tl_bounds layer) + r_width (tl_bounds layer) - x);
          tileHeight = min (tm_tileSize tm) (r_y (tl_bounds layer) + r_height (tl_bounds layer) - y);
          t = new_Tile x y tileWidth tileHeight layer tileX tileY;
          ref = tm_next tm
      in tm\<lparr>tm_store := (tm_store tm)(ref \<mapsto> t),
            tm_next := ref + 1,
            tm_tiles := (tm_tiles tm)(key \<mapsto> ref),
            tm_layerTiles :=
              (case tm_layerTiles tm (tl_id layer) of
                 None \<Rightarrow> (tm_layerTiles tm)(tl_id layer \<mapsto> [key])
               | Some keys \<Rightarrow>
                   (tm_layerTiles tm)
                     (tl_id layer \<mapsto> (if key \<in> set keys then keys else keys @ [key]))),
            tm_tileAccessOrder := remove1 ref (tm_tileAccessOrder tm) @ [ref],
            tm_stats := (tm_stats tm)\<lparr>
               totalTilesCreated := totalTilesCreated (tm_stats tm) + 1,
               cacheMisses := cacheMisses (tm_stats tm) + 1\<rparr>,
            tm_currentMemoryUsage := tm_currentMemoryUsage tm + estimateTileMemoryUsage t\<rparr>)"

text \<open>
  The state of a request before any eviction: on a miss the state above, on a hit the
  final state (a hit evicts nothing).
\<close>

definition before_eviction ::
  "rat \<Rightarrow> rat \<Rightarrow> tile_layer \<Rightarrow> tiling_manager \<Rightarrow> tiling_manager" where
  "before_eviction x y layer tm =
     (case tm_tiles tm (tile_key (tl_id layer) \<lfloor>x / tm_tileSize tm\<rfloor> \<lfloor>y / tm_tileSize tm\<rfloor>) of
        Some ref \<Rightarrow> snd (getOrCreateTile x y layer tm)
      | None \<Rightarrow> register_tile x y layer tm)"

text \<open>
  A manager whose budget holds one full tile and one narrow one, and the events of the
  example: the tile at \<open>(0, 0)\<close> is created and rasterized, then the narrow tile at
  the right edge of the page is created.
\<close>

definition small_budget :: tiling_options where
  "small_budget = \<lparr>opt_tileSize = Some 256, opt_maxTiles = None,
     opt_maxMemoryUsage = Some 300000\<rparr>"

definition first_events :: "tile_event list" where
  "first_events = [Request 0 0 page_layer, Rasterized 0 (Some ''canvas_0''),
                   Request 768 0 page_layer]"

section \<open>Batches of a frame\<close>

text \<open>
  Notions for stating what batching produces.  \<open>submit_all\<close> submits quads in order.
  The key of a batch or of a quad is its shader, texture and blend mode.  A batch is
  uniform when it is not empty and all its quads have the batch's key.  \<open>all_batches\<close>
  lists the flushed batches followed by the open one, if it holds a quad.
\<close>

definition submit_all :: "draw_quad list \<Rightarrow> gpu \<Rightarrow> gpu" where
  "submit_all qs g = foldl (\<lambda>s q. submitDrawQuad q s) g qs"

definition batch_key :: "batch \<Rightarrow> string \<times> string option \<times> string" where
  "batch_key b = (b_shader b, b_texture b, b_blendMode b)"

definition quad_key :: "draw_quad \<Rightarrow> string \<times> string option \<times> string" where
  "quad_key q = (q_shader q, q_texture q, q_blendMode q)"

definition all_batches :: "gpu \<Rightarrow> batch list" where
  "all_batches g =
     gpu_commandBuffer g @ (if b_quads (gpu_currentBatch g) = [] then [] else [gpu_currentBatch g])"

fun adjacent_differ :: "batch list \<Rightarrow> bool" where
  "adjacent_differ [] = True"
| "adjacent_differ [b] = True"
| "adjacent_differ (a # b # bs) = (batch_key a \<noteq> batch_key b \<and> adjacent_differ (b # bs))"

definition uniform :: "batch \<Rightarrow> bool" where
  "uniform b = (b_quads b \<noteq> [] \<and> list_all (\<lambda>q. quad_key q = batch_key b) (b_quads b))"

text \<open>
  \<open>batched\<close>: every batch is uniform, neighbouring batches differ in their key, there
  is an open batch whenever the command buffer is not empty, and the batch counter equals
  the number of flushed batches.
\<close>

definition batched :: "gpu \<Rightarrow> bool" where
  "batched g =
     (list_all uniform (all_batches g) \<and> adjacent_differ (all_batches g)
      \<and> (if b_quads (gpu_currentBatch g) = [] then gpu_commandBuffer g = [] else True)
      \<and> batchCount (gpu_stats g) = length (gpu_commandBuffer g))"

definition new_batch :: "draw_quad \<Rightarrow> batch" where
  "new_batch q = \<lparr>b_quads = [q], b_shader = q_shader q, b_texture = q_texture q,
     b_blendMode = q_blendMode q\<rparr>"

section \<open>Verified properties\<close>


subsection \<open>Layer construction\<close>

lemma parseFloat_zero: "parseFloat (Some ''0'') = Num 0"
  by (simp add: parseFloat_def split_sign_def is_js_space_def is_digit_def digits_val_def
      digit_val_def exponent_part_def pow10_def)

text \<open>
  Claim C9.  An options object with opacity exactly \<open>0\<close> gives the \<open>Layer\<close>
  constructor's result the opacity \<open>1.0\<close>, because the falsy value is replaced by the
  default; \<open>createLayerForNode\<close> maps the style opacity \<open>"0"\<close> to the layer opacity
  \<open>1.0\<close> in the same way.  Neither entry point can produce a layer whose opacity is
  \<open>0\<close>, whatever the options or the node are.
\<close>

theorem zero_opacity_layer_gets_default:
  "l_opacity (attrs (new_Layer (options\<lparr>o_opacity := Some (Num 0)\<rparr>) generated)) = Num 1
   \<and> l_opacity (attrs (fst (createLayerForNode
         (LayoutNode (style(''opacity'' \<mapsto> ''0'')) layout bm el cs) reason st))) = Num 1
   \<and> l_opacity (attrs (new_Layer options' generated')) \<noteq> Num 0
   \<and> l_opacity (attrs (fst (createLayerForNode node reason' st'))) \<noteq> Num 0"
proof (intro conjI)
  show "l_opacity (attrs (new_Layer (options\<lparr>o_opacity := Some (Num 0)\<rparr>) generated)) = Num 1"
    by (simp add: new_Layer_def js_or_undef_def js_or_def)
  show "l_opacity (attrs (fst (createLayerForNode
         (LayoutNode (style(''opacity'' \<mapsto> ''0'')) layout bm el cs) reason st))) = Num 1"
    by (simp add: createLayerForNode_def Let_def new_Layer_def js_or_undef_def js_or_def
        parseFloat_zero)
  show "l_opacity (attrs (new_Layer options' generated')) \<noteq> Num 0"
    by (auto simp add: new_Layer_def js_or_undef_def js_or_def split: option.splits)
  show "l_opacity (attrs (fst (createLayerForNode node reason' st'))) \<noteq> Num 0"
    by (auto simp add: createLayerForNode_def Let_def new_Layer_def js_or_undef_def js_or_def
        split: option.splits)
qed

subsection \<open>Layer tree calculation on missing input\<close>

text \<open>
  Claim C2.  The claim asks that \<open>calculate\<close> return the empty layer tree (the root
  layer only) for every missing layout input and never raise.  For a layout tree whose
  root is \<open>null\<close> it does: the result is the fresh tree with zeroed statistics.  For
  \<open>null\<close> or \<open>undefined\<close> in place of the layout tree it raises a \<open>TypeError\<close>
  instead, at the first read of \<open>layoutTree.root\<close>.
\<close>

theorem calculate_null_tree_raises:
  "calculate opt LTNull = Inl (TypeError ''Cannot read properties of null (reading 'root')'')
   \<and> calculate opt LTUndefined
       = Inl (TypeError ''Cannot read properties of undefined (reading 'root')'')
   \<and> calculate opt (LayoutTree None) = Inr (new_LayerTree, calc_stats.truncate resetStats)
   \<and> children (lt_root new_LayerTree) = []"
proof (intro conjI)
  show "calculate opt LTNull
        = Inl (TypeError ''Cannot read properties of null (reading 'root')'')"
    by (simp add: calculate_def)
  show "calculate opt LTUndefined
        = Inl (TypeError ''Cannot read properties of undefined (reading 'root')'')"
    by (simp add: calculate_def)
  show "calculate opt (LayoutTree None) = Inr (new_LayerTree, calc_stats.truncate resetStats)"
    by (simp add: calculate_def Let_def optimizeLayerTree_def new_LayerTree_def resetStats_def
        removeUnnecessaryLayers.simps reorderLayers.simps removeUnnecessary_def
        unnecessary_def new_Layer_def)
  show "children (lt_root new_LayerTree) = []"
    by (simp add: new_LayerTree_def new_Layer_def)
qed

subsection \<open>Tile signatures\<close>

lemma content_hash_kinds:
  "foldl (\<lambda>hash r. hash @ CHR ''_'' # record_type r) h rs
   = h @ concat (map (\<lambda>k. CHR ''_'' # k) (map record_type rs))"
  by (induction rs arbitrary: h) simp_all

text \<open>
  Claim C1, as stated, fails.  The two example tiles belong to the same layer and grid
  cell; their single rectangle is red in one and green in the other.  The record kinds
  agree, and so do the signatures: both are \<open>root_1_0_1_rect\<close>.
\<close>

theorem signature_ignores_fill_colour:
  "rect_fillStyle (hd (tl_paintRecords (t_layer red_tile))) = ''#ff0000''
   \<and> rect_fillStyle (hd (tl_paintRecords (t_layer green_tile))) = ''#00ff00''
   \<and> map record_type (tl_paintRecords (t_layer red_tile))
       = map record_type (tl_paintRecords (t_layer green_tile))
   \<and> generateTileSignature red_tile = generateTileSignature green_tile
   \<and> generateTileSignature red_tile = ''root_1_0_1_rect''"
  by code_simp

text \<open>
  Claim C1, amended.  The signature of a tile is determined by the id of its layer, its
  grid coordinates and the sequence of kinds of the layer's paint records: two tiles that
  agree on these have the same signature, whatever else their records hold.
\<close>

theorem signature_determined_by_kinds:
  assumes "tl_id (t_layer a) = tl_id (t_layer b)"
    and "t_tileX a = t_tileX b" and "t_tileY a = t_tileY b"
    and "map record_type (tl_paintRecords (t_layer a))
         = map record_type (tl_paintRecords (t_layer b))"
  shows "generateTileSignature a = generateTileSignature b"
proof -
  have "length (tl_paintRecords (t_layer a)) = length (tl_paintRecords (t_layer b))"
    using assms(4) by (rule map_eq_imp_length_eq)
  then show ?thesis
    using assms
    by (simp add: generateTileSignature_def calculateLayerContentHash_def content_hash_kinds)
qed

theorem signature_determined_by_kinds_witness:
  "tl_id (t_layer red_tile) = tl_id (t_layer green_tile)
   \<and> t_tileX red_tile = t_tileX green_tile \<and> t_tileY red_tile = t_tileY green_tile
   \<and> map record_type (tl_paintRecords (t_layer red_tile))
       = map record_type (tl_paintRecords (t_layer green_tile))
   \<and> tl_paintRecords (t_layer red_tile) \<noteq> tl_paintRecords (t_layer green_tile)
   \<and> generateTileSignature red_tile = generateTileSignature green_tile"
proof -
  have 1: "tl_id (t_layer red_tile) = tl_id (t_layer green_tile)" by code_simp
  have 2: "t_tileX red_tile = t_tileX green_tile" by code_simp
  have 3: "t_tileY red_tile = t_tileY green_tile" by code_simp
  have 4: "map record_type (tl_paintRecords (t_layer red_tile))
           = map record_type (tl_paintRecords (t_layer green_tile))" by code_simp
  have 5: "tl_paintRecords (t_layer red_tile) \<noteq> tl_paintRecords (t_layer green_tile)"
    by code_simp
  show ?thesis
    using 1 2 3 4 5 signature_determined_by_kinds [OF 1 2 3 4] by simp
qed

subsection \<open>Access order of the tiling manager\<close>

text \<open>
  Claim C4 on the four requests A, B, A, C.  The second request for A is a hit: it
  returns the tile of the first request and the hit counter goes from 0 to 1.  The access
  order, however, is \<open>[A, B]\<close> before the hit and still \<open>[A, B]\<close> after it, so A stays
  at the least-recently-used end.  The request for C, which exceeds the budget of two
  tiles, then evicts A and keeps B, although A was used after B.
\<close>

theorem cache_hit_keeps_access_order:
  "fst after_A_again = fst after_A
   \<and> cacheHits (tm_stats (snd after_B)) = 0
   \<and> cacheHits (tm_stats (snd after_A_again)) = 1
   \<and> tm_tileAccessOrder (snd after_B) = [fst after_A, fst after_B]
   \<and> tm_tileAccessOrder (snd after_A_again) = [fst after_A, fst after_B]
   \<and> tm_tileAccessOrder (snd after_C) = [fst after_B, fst after_C]
   \<and> tm_tiles (snd after_C) ''root_0_0'' = None
   \<and> tm_tiles (snd after_C) ''root_1_0'' = Some (fst after_B)"
  by code_simp

subsection \<open>Records of a node with a shadow\<close>

text \<open>
  What \<open>createPaintRecordsForNode\<close> returns for a node whose shadow property (its
  \<open>box-shadow\<close>, else its \<open>text-shadow\<close>) is present and not \<open>none\<close>: nothing, if
  the node emits no record; otherwise exactly one shadow record, whose target is the first
  record the node emitted, and the statistics unchanged.
\<close>

lemma shadow_record_of_node:
  assumes "shadow_value node = Some s" and "s \<noteq> []" and "s \<noteq> ''none''"
  shows "case emitted_records node layout layer of
           [] \<Rightarrow> createPaintRecordsForNode node layout layer stats = ([], stats)
         | r # rs \<Rightarrow>
             (\<exists>sh. createPaintRecordsForNode node layout layer stats = ([sh], stats)
                   \<and> record_type sh = ''shadow'' \<and> targetRecord sh = Some r
                   \<and> bounds sh = bounds r)"
  using assms
  by (auto simp: createPaintRecordsForNode_def createShadowRecord_def Let_def
      new_ShadowPaintRecord_def record_type_def bounds_def PaintRecord_def no_params_def
      split: list.splits)

text \<open>
  Claim C5 fails in the code.  The example node, a text node with a red background, a
  border and the box shadow \<^verbatim>\<open>rgba(0, 0, 0, 0.5) 2px 3px 4px\<close>, emits three records:
  the background rectangle, the border path and the text.  The call returns a single
  shadow record.  Its target is the background rectangle, not the content record; the
  border path and the text are not returned at all, and \<open>generatedRecords\<close> stays at
  0.  The shadow record does not carry the values of the property either: its colour is
  the string \<^verbatim>\<open>2\<close>, its offsets are 3 and 4, and its blur is the default 10 of the
  record class.
\<close>

theorem shadow_replaces_every_record:
  "map record_type (emitted_records shadowed_node shadowed_layout shadowed_layer)
     = [''rect'', ''path'', ''text'']
   \<and> map record_type
         (fst (createPaintRecordsForNode shadowed_node shadowed_layout shadowed_layer zero_stats))
     = [''shadow'']
   \<and> map targetRecord
         (fst (createPaintRecordsForNode shadowed_node shadowed_layout shadowed_layer zero_stats))
     = [Some (hd (emitted_records shadowed_node shadowed_layout shadowed_layer))]
   \<and> map (map_option record_type \<circ> targetRecord)
         (fst (createPaintRecordsForNode shadowed_node shadowed_layout shadowed_layer zero_stats))
     = [Some ''rect'']
   \<and> map shadowColor
         (fst (createPaintRecordsForNode shadowed_node shadowed_layout shadowed_layer zero_stats))
     = [''2'']
   \<and> map shadowOffsetX
         (fst (createPaintRecordsForNode shadowed_node shadowed_layout shadowed_layer zero_stats))
     = [Num 3]
   \<and> map shadowOffsetY
         (fst (createPaintRecordsForNode shadowed_node shadowed_layout shadowed_layer zero_stats))
     = [Num 4]
   \<and> map shadowBlur
         (fst (createPaintRecordsForNode shadowed_node shadowed_layout shadowed_layer zero_stats))
     = [Num 10]
   \<and> g_generatedRecords
         (snd (createPaintRecordsForNode shadowed_node shadowed_layout shadowed_layer zero_stats))
     = 0"
  by code_simp

subsection \<open>The tile grid of a page-sized layer\<close>

text \<open>
  A row of the grid holds one tile for each step of the tile edge from its start to its
  end, and the grid holds one such row for each step from its top to its bottom; with a
  positive tile edge both loops come to an end.
\<close>

lemma ceiling_step:
  fixes ts d :: rat
  assumes "0 < ts" "0 < d"
  shows "nat \<lceil>d / ts\<rceil> = Suc (nat \<lceil>(d - ts) / ts\<rceil>)"
proof -
  have e: "(d - ts) / ts = d / ts - 1" using assms by (simp add: field_simps)
  have "0 < d / ts" using assms by simp
  then have "0 < \<lceil>d / ts\<rceil>" by simp
  then have "nat \<lceil>d / ts\<rceil> = Suc (nat (\<lceil>d / ts\<rceil> - 1))" by arith
  then show ?thesis by (simp add: e)
qed

lemma tile_row_length:
  "0 < ts \<Longrightarrow> \<exists>refs tm'. tile_row ts x endX y layer tm = Some (refs, tm')
      \<and> length refs = nat \<lceil>(endX - x) / ts\<rceil>"
proof (induction ts x endX y layer tm rule: tile_row.induct)
  case (1 ts x endX y layer tm)
  show ?case
  proof (cases "x < endX")
    case False
    then have "(endX - x) / ts \<le> 0" using "1.prems" by (simp add: divide_nonpos_pos)
    then have "\<lceil>(endX - x) / ts\<rceil> \<le> 0" by (simp add: ceiling_le_zero)
    with False show ?thesis by (subst tile_row.simps) simp
  next
    case True
    obtain ref tm1 where c: "tile_cell x y layer tm = (ref, tm1)" by (cases "tile_cell x y layer tm")
    from "1.prems" have np: "\<not> ts \<le> 0" by simp
    from "1.IH" [OF True np c [symmetric] refl "1.prems"]
    obtain refs tm' where r: "tile_row ts (x + ts) endX y layer tm1 = Some (refs, tm')"
      and l: "length refs = nat \<lceil>(endX - (x + ts)) / ts\<rceil>" by blast
    have "nat \<lceil>(endX - x) / ts\<rceil> = Suc (nat \<lceil>(endX - x - ts) / ts\<rceil>)"
      using "1.prems" True by (intro ceiling_step) simp_all
    with True np c r l show ?thesis
      by (subst tile_row.simps) (simp add: algebra_simps)
  qed
qed

lemma tile_rows_length:
  "0 < ts \<Longrightarrow> \<exists>refs tm'. tile_rows ts y endY startX endX layer tm = Some (refs, tm')
      \<and> length refs = nat \<lceil>(endY - y) / ts\<rceil> * nat \<lceil>(endX - startX) / ts\<rceil>"
proof (induction ts y endY startX endX layer tm rule: tile_rows.induct)
  case (1 ts y endY startX endX layer tm)
  show ?case
  proof (cases "y < endY")
    case False
    then have "(endY - y) / ts \<le> 0" using "1.prems" by (simp add: divide_nonpos_pos)
    then have "\<lceil>(endY - y) / ts\<rceil> \<le> 0" by (simp add: ceiling_le_zero)
    with False show ?thesis by (subst tile_rows.simps) simp
  next
    case True
    from "1.prems" have np: "\<not> ts \<le> 0" by simp
    from tile_row_length [OF "1.prems", of startX endX y layer tm]
    obtain row tm1 where w: "tile_row ts startX endX y layer tm = Some (row, tm1)"
      and lw: "length row = nat \<lceil>(endX - startX) / ts\<rceil>" by blast
    from "1.IH" [OF True np w refl "1.prems"]
    obtain refs tm' where r: "tile_rows ts (y + ts) endY startX endX layer tm1 = Some (refs, tm')"
      and l: "length refs = nat \<lceil>(endY - (y + ts)) / ts\<rceil> * nat \<lceil>(endX - startX) / ts\<rceil>"
      by blast
    have "nat \<lceil>(endY - y) / ts\<rceil> = Suc (nat \<lceil>(endY - y - ts) / ts\<rceil>)"
      using "1.prems" True by (intro ceiling_step) simp_all
    with True np w lw r l show ?thesis
      by (subst tile_rows.simps) (simp add: algebra_simps)
  qed
qed

text \<open>
  Claim C6.  For a layer with absolute bounds \<open>(0, 0, 800, 600)\<close> and a manager with
  tile edge 256, \<open>generateTilesForLayer\<close> returns, and returns twelve tiles, whatever
  else the layer and the manager hold.  On a new manager their pixel origins, row by
  row, are \<open>x = 0, 256, 512, 768\<close> for each of \<open>y = 0, 256, 512\<close>.
\<close>

theorem page_layer_has_twelve_tiles:
  "(\<exists>refs tm'. generateTilesForLayer (layer\<lparr>tl_absoluteBounds := Some page_bounds\<rparr>)
                   (tm\<lparr>tm_tileSize := 256\<rparr>) = Some (refs, tm')
               \<and> length refs = 12)
   \<and> map_option (length \<circ> fst) (generateTilesForLayer page_layer (new_TilingManager edge_256))
     = Some 12
   \<and> tile_origins (generateTilesForLayer page_layer (new_TilingManager edge_256))
     = Some [Some (0, 0), Some (256, 0), Some (512, 0), Some (768, 0),
             Some (0, 256), Some (256, 256), Some (512, 256), Some (768, 256),
             Some (0, 512), Some (256, 512), Some (512, 512), Some (768, 512)]"
proof (intro conjI)
  let ?l = "layer\<lparr>tl_absoluteBounds := Some page_bounds\<rparr>"
  let ?t = "tm\<lparr>tm_tileSize := 256\<rparr>"
  have g: "grid_start 256 0 = 0" "grid_end 256 800 = 1024" "grid_end 256 600 = 768"
    by code_simp+
  from tile_rows_length [of 256 0 768 0 1024 ?l ?t]
  obtain refs tm' where r: "tile_rows 256 0 768 0 1024 ?l ?t = Some (refs, tm')"
    and l: "length refs = nat \<lceil>(768 - 0) / (256::rat)\<rceil> * nat \<lceil>(1024 - 0) / (256::rat)\<rceil>"
    by auto
  have "nat \<lceil>(768 - 0) / (256::rat)\<rceil> * nat \<lceil>(1024 - 0) / (256::rat)\<rceil> = 12"
    by code_simp
  with l have "length refs = 12" by simp
  with r show "\<exists>refs tm'. generateTilesForLayer ?l ?t = Some (refs, tm') \<and> length refs = 12"
    by (simp add: generateTilesForLayer_def grid_bounds_def page_bounds_def g Let_def)
next
  show "map_option (length \<circ> fst)
          (generateTilesForLayer page_layer (new_TilingManager edge_256)) = Some 12"
    by code_simp
next
  show "tile_origins (generateTilesForLayer page_layer (new_TilingManager edge_256))
     = Some [Some (0, 0), Some (256, 0), Some (512, 0), Some (768, 0),
             Some (0, 256), Some (256, 256), Some (512, 256), Some (768, 256),
             Some (0, 512), Some (256, 512), Some (512, 512), Some (768, 512)]"
    by code_simp
qed

subsection \<open>Errors during a frame\<close>



subsection \<open>Bounds of the records after rasterization\<close>

lemma set_bounds_restore: "set_bounds (bounds r) (set_bounds b r) = r"
  by (cases r) (simp_all add: set_bounds_def bounds_def)

text \<open>
  Claim C10.  When \<open>rasterizePaintRecords\<close> completes, every paint record of the layer
  has the bounds it had before the call; indeed the records are as they were.  (The
  drawing itself is done with the translated bounds, as the witness shows: the rectangle
  at \<open>x = 300\<close> is filled at \<open>x = 44\<close> in the tile whose origin is \<open>x = 256\<close>.)
\<close>

theorem rasterize_restores_bounds:
  "rasterizePaintRecords ctx recs viewport = Inr (ctx', recs')
   \<Longrightarrow> map bounds recs' = map bounds recs \<and> recs' = recs"
proof (induction recs arbitrary: ctx ctx' recs')
  case Nil
  then show ?case by simp
next
  case (Cons r rs)
  then show ?case
    by (auto simp: Let_def set_bounds_restore split: if_splits sum.splits prod.splits)
qed

theorem rasterize_restores_bounds_witness:
  "rasterizePaintRecords [] [coloured_rect ''#ff0000'', coloured_rect ''#00ff00''] tile_viewport
     = Inr ([Save, MulGlobalAlpha 1, SetFillStyle ''#ff0000'', FillRect 44 10 50 40, Restore,
             Save, MulGlobalAlpha 1, SetFillStyle ''#00ff00'', FillRect 44 10 50 40, Restore],
            [coloured_rect ''#ff0000'', coloured_rect ''#00ff00''])
   \<and> map bounds [coloured_rect ''#ff0000'', coloured_rect ''#00ff00'']
     = [\<lparr>r_x = 300, r_y = 10, r_width = 50, r_height = 40\<rparr>,
        \<lparr>r_x = 300, r_y = 10, r_width = 50, r_height = 40\<rparr>]"
proof -
  obtain c rs where e: "rasterizePaintRecords []
      [coloured_rect ''#ff0000'', coloured_rect ''#00ff00''] tile_viewport = Inr (c, rs)"
    and c: "c = [Save, MulGlobalAlpha 1, SetFillStyle ''#ff0000'', FillRect 44 10 50 40, Restore,
             Save, MulGlobalAlpha 1, SetFillStyle ''#00ff00'', FillRect 44 10 50 40, Restore]"
    by (simp add: coloured_rect_def new_RectPaintRecord_def PaintRecord_def no_params_def
        rat_or_def str_or_def js_or_undef_def tile_viewport_def isRecordInViewport_def
        bounds_def set_bounds_def translated_def execute.simps zero_rect_def Let_def)
  have b: "map bounds [coloured_rect ''#ff0000'', coloured_rect ''#00ff00'']
     = [\<lparr>r_x = 300, r_y = 10, r_width = 50, r_height = 40\<rparr>,
        \<lparr>r_x = 300, r_y = 10, r_width = 50, r_height = 40\<rparr>]"
    by (simp add: coloured_rect_def new_RectPaintRecord_def PaintRecord_def no_params_def
        bounds_def)
  show ?thesis
    using e c b rasterize_restores_bounds [OF e] by simp
qed

subsection \<open>Eviction under the memory budget\<close>

lemma tile_memory_estimate:
  "tile_memory tm r = (case tm_store tm r of None \<Rightarrow> 0 | Some t \<Rightarrow> estimateTileMemoryUsage t)"
  by (simp add: tile_memory_def estimateTileMemoryUsage_def split: option.splits)

lemma getOrCreateTile_miss:
  "tm_tiles tm (tile_key (tl_id layer) \<lfloor>x / tm_tileSize tm\<rfloor> \<lfloor>y / tm_tileSize tm\<rfloor>) = None \<Longrightarrow>
   getOrCreateTile x y layer tm = (tm_next tm, enforceMemoryLimit (register_tile x y layer tm))"
  by (simp add: getOrCreateTile_def register_tile_def Let_def updateTileAccessOrder_def)

lemma key_of_new_Tile [simp]:
  "key_of (new_Tile x y w h layer tx ty) = tile_key (tl_id layer) tx ty"
  by (simp add: key_of_def new_Tile_def)

lemma inv_new: "tm_inv (new_TilingManager opts)"
  by (simp add: tm_inv_def new_TilingManager_def tracked_memory_def)

lemma inv_register:
  assumes inv: "tm_inv tm"
    and miss: "tm_tiles tm (tile_key (tl_id layer) \<lfloor>x / tm_tileSize tm\<rfloor> \<lfloor>y / tm_tileSize tm\<rfloor>) = None"
  shows "tm_inv (register_tile x y layer tm)"
proof -
  let ?key = "tile_key (tl_id layer) \<lfloor>x / tm_tileSize tm\<rfloor> \<lfloor>y / tm_tileSize tm\<rfloor>"
  let ?ref = "tm_next tm"
  have fresh: "?ref \<notin> set (tm_tileAccessOrder tm)"
    using inv by (auto simp: tm_inv_def)
  then have rm: "remove1 ?ref (tm_tileAccessOrder tm) = tm_tileAccessOrder tm"
    by (simp add: remove1_idem)
  have mem: "\<And>r. r \<in> set (tm_tileAccessOrder tm) \<Longrightarrow>
     tile_memory (register_tile x y layer tm) r = tile_memory tm r"
    using fresh by (auto simp: tile_memory_estimate register_tile_def Let_def)
  have ao: "tm_tileAccessOrder (register_tile x y layer tm) = tm_tileAccessOrder tm @ [?ref]"
    by (simp add: register_tile_def Let_def rm)
  have meq: "map (tile_memory (register_tile x y layer tm)) (tm_tileAccessOrder tm)
      = map (tile_memory tm) (tm_tileAccessOrder tm)"
    by (rule map_cong [OF refl]) (rule mem)
  have tr: "tracked_memory (register_tile x y layer tm)
      = tracked_memory tm + tile_memory (register_tile x y layer tm) ?ref"
    unfolding tracked_memory_def ao by (simp only: map_append sum_list_append meq) simp
  show ?thesis
    unfolding tm_inv_def
  proof (intro conjI ballI allI impI)
    show "distinct (tm_tileAccessOrder (register_tile x y layer tm))"
      using inv fresh by (simp add: register_tile_def Let_def rm tm_inv_def)
  next
    fix r assume "r \<in> set (tm_tileAccessOrder (register_tile x y layer tm))"
    then have r: "r = ?ref \<or> r \<in> set (tm_tileAccessOrder tm)"
      by (auto simp: register_tile_def Let_def rm)
    show "r < tm_next (register_tile x y layer tm)"
      using r inv by (auto simp: register_tile_def Let_def tm_inv_def less_Suc_eq)
    show "\<exists>t. tm_store (register_tile x y layer tm) r = Some t
            \<and> tm_tiles (register_tile x y layer tm) (key_of t) = Some r"
    proof (cases "r = ?ref")
      case True
      then show ?thesis by (simp add: register_tile_def Let_def)
    next
      case False
      with r have rin: "r \<in> set (tm_tileAccessOrder tm)" by simp
      with inv obtain t where t: "tm_store tm r = Some t" "tm_tiles tm (key_of t) = Some r"
        by (auto simp: tm_inv_def)
      with miss have "key_of t \<noteq> ?key" by auto
      with t False show ?thesis by (simp add: register_tile_def Let_def)
    qed
  next
    fix k r assume a: "tm_tiles (register_tile x y layer tm) k = Some r"
    show "r \<in> set (tm_tileAccessOrder (register_tile x y layer tm))"
      using a inv by (auto simp: register_tile_def Let_def rm tm_inv_def split: if_splits)
    show "\<exists>t. tm_store (register_tile x y layer tm) r = Some t \<and> key_of t = k"
    proof (cases "k = ?key")
      case True
      with a show ?thesis by (simp add: register_tile_def Let_def)
    next
      case False
      with a have "tm_tiles tm k = Some r" by (simp add: register_tile_def Let_def)
      with inv have "r \<in> set (tm_tileAccessOrder tm)" "\<exists>t. tm_store tm r = Some t \<and> key_of t = k"
        by (auto simp: tm_inv_def)
      with fresh show ?thesis by (auto simp: register_tile_def Let_def)
    qed
  next
    show "tm_currentMemoryUsage (register_tile x y layer tm) = tracked_memory (register_tile x y layer tm)"
      using inv by (simp add: tr) (simp add: register_tile_def Let_def tm_inv_def tile_memory_estimate)
  qed
qed


lemma inv_order:
  "tm_inv tm \<Longrightarrow> r \<in> set (tm_tileAccessOrder tm) \<Longrightarrow>
   r < tm_next tm \<and> (\<exists>t. tm_store tm r = Some t \<and> tm_tiles tm (key_of t) = Some r)"
  by (simp add: tm_inv_def)

lemma inv_tiles:
  "tm_inv tm \<Longrightarrow> tm_tiles tm k = Some r \<Longrightarrow>
   r \<in> set (tm_tileAccessOrder tm) \<and> (\<exists>t. tm_store tm r = Some t \<and> key_of t = k)"
  by (simp add: tm_inv_def)

lemma evict_oldest_parts:
  assumes inv: "tm_inv tm" and o: "tm_tileAccessOrder tm = oldest # rest"
  obtains t where "tm_store tm oldest = Some t"
    and "tm_tiles tm (key_of t) = Some oldest"
    and "tm_tileAccessOrder (evict_oldest tm) = rest"
    and "tm_store (evict_oldest tm) = (tm_store tm)(oldest \<mapsto> tile_dispose t)"
    and "tm_tiles (evict_oldest tm) = (tm_tiles tm)(key_of t := None)"
    and "tm_currentMemoryUsage (evict_oldest tm)
         = tm_currentMemoryUsage tm - estimateTileMemoryUsage t"
    and "tilesEvicted (tm_stats (evict_oldest tm)) = tilesEvicted (tm_stats tm) + 1"
    and "tm_maxMemoryUsage (evict_oldest tm) = tm_maxMemoryUsage tm"
    and "tm_next (evict_oldest tm) = tm_next tm"
proof -
  from inv o obtain t where t: "tm_store tm oldest = Some t" "tm_tiles tm (key_of t) = Some oldest"
    by (auto simp: tm_inv_def)
  from inv o have "oldest \<notin> set rest" by (simp add: tm_inv_def)
  then have rm: "remove1 oldest rest = rest" by (simp add: remove1_idem)
  show thesis
  proof (rule that [OF t])
    show "tm_tileAccessOrder (evict_oldest tm) = rest"
      using o t rm by (simp add: evict_oldest_def removeTile_def Let_def)
    show "tm_store (evict_oldest tm) = (tm_store tm)(oldest \<mapsto> tile_dispose t)"
      using o t by (simp add: evict_oldest_def removeTile_def Let_def)
    show "tm_tiles (evict_oldest tm) = (tm_tiles tm)(key_of t := None)"
      using o t by (simp add: evict_oldest_def removeTile_def Let_def)
    show "tm_currentMemoryUsage (evict_oldest tm)
         = tm_currentMemoryUsage tm - estimateTileMemoryUsage t"
      using o t by (simp add: evict_oldest_def removeTile_def Let_def)
    show "tilesEvicted (tm_stats (evict_oldest tm)) = tilesEvicted (tm_stats tm) + 1"
      using o t by (simp add: evict_oldest_def removeTile_def Let_def)
    show "tm_maxMemoryUsage (evict_oldest tm) = tm_maxMemoryUsage tm"
      using o t by (simp add: evict_oldest_def removeTile_def Let_def)
    show "tm_next (evict_oldest tm) = tm_next tm"
      using o t by (simp add: evict_oldest_def removeTile_def Let_def)
  qed
qed

lemma key_of_dispose [simp]: "key_of (tile_dispose t) = key_of t"
  by (simp add: key_of_def tile_dispose_def)

lemma estimate_dispose [simp]: "estimateTileMemoryUsage (tile_dispose t) = estimateTileMemoryUsage t"
  by (simp add: estimateTileMemoryUsage_def tile_dispose_def)

lemma inv_evict:
  assumes inv: "tm_inv tm" and o: "tm_tileAccessOrder tm = oldest # rest"
  shows "tm_inv (evict_oldest tm)"
proof -
  from evict_oldest_parts [OF inv o] obtain t where
    t: "tm_store tm oldest = Some t" "tm_tiles tm (key_of t) = Some oldest"
    and ao: "tm_tileAccessOrder (evict_oldest tm) = rest"
    and st: "tm_store (evict_oldest tm) = (tm_store tm)(oldest \<mapsto> tile_dispose t)"
    and ti: "tm_tiles (evict_oldest tm) = (tm_tiles tm)(key_of t := None)"
    and cu: "tm_currentMemoryUsage (evict_oldest tm)
         = tm_currentMemoryUsage tm - estimateTileMemoryUsage t"
    and nx: "tm_next (evict_oldest tm) = tm_next tm"
    by blast
  from inv o have nin: "oldest \<notin> set rest" and dr: "distinct rest" by (simp_all add: tm_inv_def)
  have mem: "\<And>r. r \<in> set rest \<Longrightarrow> tile_memory (evict_oldest tm) r = tile_memory tm r"
    using nin by (auto simp: tile_memory_estimate st)
  have meq: "map (tile_memory (evict_oldest tm)) rest = map (tile_memory tm) rest"
    by (rule map_cong [OF refl]) (rule mem)
  show ?thesis
    unfolding tm_inv_def
  proof (intro conjI ballI allI impI)
    show "distinct (tm_tileAccessOrder (evict_oldest tm))" using dr ao by simp
  next
    fix r assume "r \<in> set (tm_tileAccessOrder (evict_oldest tm))"
    then have r: "r \<in> set rest" by (simp add: ao)
    then have ne: "r \<noteq> oldest" using nin by auto
    from r inv o show "r < tm_next (evict_oldest tm)" by (simp add: nx tm_inv_def)
    from r inv o obtain u where u: "tm_store tm r = Some u" "tm_tiles tm (key_of u) = Some r"
      by (auto simp: tm_inv_def)
    with t ne have "key_of u \<noteq> key_of t" by auto
    with u ne show "\<exists>t. tm_store (evict_oldest tm) r = Some t
        \<and> tm_tiles (evict_oldest tm) (key_of t) = Some r"
      by (simp add: st ti)
  next
    fix k r assume a: "tm_tiles (evict_oldest tm) k = Some r"
    then have k: "k \<noteq> key_of t" and b: "tm_tiles tm k = Some r"
      by (auto simp: ti split: if_splits)
    from inv_tiles [OF inv b] obtain u where rin: "r \<in> set (tm_tileAccessOrder tm)"
      and u: "tm_store tm r = Some u" "key_of u = k"
      by blast
    have ne: "r \<noteq> oldest" using u t k by auto
    with rin o show "r \<in> set (tm_tileAccessOrder (evict_oldest tm))" by (simp add: ao)
    from u ne show "\<exists>t. tm_store (evict_oldest tm) r = Some t \<and> key_of t = k"
      by (simp add: st)
  next
    have "tracked_memory tm = estimateTileMemoryUsage t + sum_list (map (tile_memory tm) rest)"
      using o t by (simp add: tracked_memory_def tile_memory_estimate)
    moreover have "tracked_memory (evict_oldest tm) = sum_list (map (tile_memory tm) rest)"
      by (simp add: tracked_memory_def ao meq)
    ultimately show "tm_currentMemoryUsage (evict_oldest tm) = tracked_memory (evict_oldest tm)"
      using inv by (simp add: cu tm_inv_def)
  qed
qed


lemma enforce_inv: "tm_inv tm \<Longrightarrow> tm_inv (enforceMemoryLimit tm)"
proof (induction tm rule: enforceMemoryLimit.induct)
  case (1 tm)
  show ?case
  proof (cases "tm_currentMemoryUsage tm > tm_maxMemoryUsage tm \<and> tm_tileAccessOrder tm \<noteq> []")
    case True
    then obtain oldest rest where o: "tm_tileAccessOrder tm = oldest # rest"
      by (cases "tm_tileAccessOrder tm") auto
    have "tm_inv (evict_oldest tm)" using "1.prems" o by (rule inv_evict)
    with "1.IH" True have "tm_inv (enforceMemoryLimit (evict_oldest tm))" by simp
    with True show ?thesis by (subst enforceMemoryLimit.simps) simp
  next
    case False
    with "1.prems" show ?thesis by (subst enforceMemoryLimit.simps) auto
  qed
qed

lemma enforce_frame:
  "tm_inv tm \<Longrightarrow>
     (\<forall>r. r \<notin> set (tm_tileAccessOrder tm) \<longrightarrow>
          tm_store (enforceMemoryLimit tm) r = tm_store tm r)
   \<and> (\<forall>k. tm_tiles tm k = None \<longrightarrow> tm_tiles (enforceMemoryLimit tm) k = None)
   \<and> tm_maxMemoryUsage (enforceMemoryLimit tm) = tm_maxMemoryUsage tm"
proof (induction tm rule: enforceMemoryLimit.induct)
  case (1 tm)
  show ?case
  proof (cases "tm_currentMemoryUsage tm > tm_maxMemoryUsage tm \<and> tm_tileAccessOrder tm \<noteq> []")
    case True
    then obtain oldest rest where o: "tm_tileAccessOrder tm = oldest # rest"
      by (cases "tm_tileAccessOrder tm") auto
    from evict_oldest_parts [OF "1.prems" o] obtain t where
      ao: "tm_tileAccessOrder (evict_oldest tm) = rest"
      and st: "tm_store (evict_oldest tm) = (tm_store tm)(oldest \<mapsto> tile_dispose t)"
      and ti: "tm_tiles (evict_oldest tm) = (tm_tiles tm)(key_of t := None)"
      and mx: "tm_maxMemoryUsage (evict_oldest tm) = tm_maxMemoryUsage tm"
      by blast
    have inv: "tm_inv (evict_oldest tm)" using "1.prems" o by (rule inv_evict)
    have e: "enforceMemoryLimit tm = enforceMemoryLimit (evict_oldest tm)"
      using True by (subst enforceMemoryLimit.simps) simp
    from "1.IH" [OF True inv] show ?thesis
      unfolding e by (auto simp: ao st ti mx o)
  next
    case False
    then have "enforceMemoryLimit tm = tm" by (subst enforceMemoryLimit.simps) auto
    then show ?thesis by simp
  qed
qed

lemma enforce_within: "tm_inv tm \<Longrightarrow> within_budget (enforceMemoryLimit tm)"
proof (induction tm rule: enforceMemoryLimit.induct)
  case (1 tm)
  show ?case
  proof (cases "tm_currentMemoryUsage tm > tm_maxMemoryUsage tm \<and> tm_tileAccessOrder tm \<noteq> []")
    case True
    then obtain oldest rest where o: "tm_tileAccessOrder tm = oldest # rest"
      by (cases "tm_tileAccessOrder tm") auto
    have "tm_inv (evict_oldest tm)" using "1.prems" o by (rule inv_evict)
    with "1.IH" True have "within_budget (enforceMemoryLimit (evict_oldest tm))" by simp
    with True show ?thesis by (subst enforceMemoryLimit.simps) simp
  next
    case False
    then have e: "enforceMemoryLimit tm = tm" by (subst enforceMemoryLimit.simps) auto
    show ?thesis
    proof (cases "tm_tileAccessOrder tm = []")
      case True
      have "tm_tiles tm k = None" for k
      proof (cases "tm_tiles tm k")
        case (Some r)
        from inv_tiles [OF "1.prems" Some] True show ?thesis by simp
      qed simp
      then have "tm_tiles tm = Map.empty" by (rule ext)
      then show ?thesis by (simp add: e within_budget_def)
    next
      case nonempty: False
      with False show ?thesis by (simp add: e within_budget_def)
    qed
  qed
qed

lemma enforce_evicts: "tm_inv tm \<Longrightarrow> \<exists>n. evicts tm (enforceMemoryLimit tm) n"
proof (induction tm rule: enforceMemoryLimit.induct)
  case (1 tm)
  show ?case
  proof (cases "tm_currentMemoryUsage tm > tm_maxMemoryUsage tm \<and> tm_tileAccessOrder tm \<noteq> []")
    case False
    then have e: "enforceMemoryLimit tm = tm" by (subst enforceMemoryLimit.simps) auto
    have "evicts tm tm 0" by (simp add: evicts_def)
    then show ?thesis unfolding e ..
  next
    case True
    then obtain oldest rest where o: "tm_tileAccessOrder tm = oldest # rest"
      by (cases "tm_tileAccessOrder tm") auto
    let ?e = "evict_oldest tm"
    let ?f = "enforceMemoryLimit ?e"
    from evict_oldest_parts [OF "1.prems" o] obtain t where
      t: "tm_store tm oldest = Some t" "tm_tiles tm (key_of t) = Some oldest"
      and ao: "tm_tileAccessOrder ?e = rest"
      and st: "tm_store ?e = (tm_store tm)(oldest \<mapsto> tile_dispose t)"
      and ti: "tm_tiles ?e = (tm_tiles tm)(key_of t := None)"
      and cu: "tm_currentMemoryUsage ?e = tm_currentMemoryUsage tm - estimateTileMemoryUsage t"
      and ev: "tilesEvicted (tm_stats ?e) = tilesEvicted (tm_stats tm) + 1"
      and mx: "tm_maxMemoryUsage ?e = tm_maxMemoryUsage tm"
      by blast
    from "1.prems" o have nin: "oldest \<notin> set rest" by (simp add: tm_inv_def)
    have inv: "tm_inv ?e" using "1.prems" o by (rule inv_evict)
    have e: "enforceMemoryLimit tm = ?f"
      using True by (subst enforceMemoryLimit.simps) simp
    from "1.IH" [OF True inv] obtain n where n: "evicts ?e ?f n" ..
    from enforce_frame [OF inv] have
      fs: "\<And>r. r \<notin> set rest \<Longrightarrow> tm_store ?f r = tm_store ?e r"
      and ft: "\<And>k. tm_tiles ?e k = None \<Longrightarrow> tm_tiles ?f k = None"
      by (auto simp: ao)
    have mem: "\<And>r. r \<in> set rest \<Longrightarrow> tile_memory ?e r = tile_memory tm r"
      using nin by (auto simp: tile_memory_estimate st)
    have meq: "map (tile_memory ?e) (take m rest) = map (tile_memory tm) (take m rest)" for m
      by (rule map_cong [OF refl]) (auto dest: in_set_takeD intro: mem)
    have mo: "tile_memory tm oldest = estimateTileMemoryUsage t"
      using t by (simp add: tile_memory_estimate)
    have old: "evicted ?f oldest"
    proof -
      have "tm_store ?f oldest = Some (tile_dispose t)" using fs [OF nin] by (simp add: st)
      moreover have "tm_tiles ?f (key_of t) = None" by (rule ft) (simp add: ti)
      moreover have "oldest \<notin> set (tm_tileAccessOrder ?f)"
        using n nin by (auto simp: evicts_def ao dest: in_set_dropD)
      moreover have "t_rasterizedContent (tile_dispose t) = None" by (simp add: tile_dispose_def)
      ultimately show ?thesis by (simp add: evicted_def)
    qed
    have "evicts tm ?f (Suc n)"
      unfolding evicts_def
    proof (intro conjI ballI allI impI)
      show "Suc n \<le> length (tm_tileAccessOrder tm)" using n by (simp add: evicts_def ao o)
      show "tm_tileAccessOrder ?f = drop (Suc n) (tm_tileAccessOrder tm)"
        using n by (simp add: evicts_def ao o)
      show "tilesEvicted (tm_stats ?f) = tilesEvicted (tm_stats tm) + Suc n"
        using n by (simp add: evicts_def ev)
      show "tm_currentMemoryUsage ?f = tm_currentMemoryUsage tm
              - sum_list (map (tile_memory tm) (take (Suc n) (tm_tileAccessOrder tm)))"
        using n by (simp add: evicts_def ao o cu meq mo)
    next
      fix r assume "r \<in> set (take (Suc n) (tm_tileAccessOrder tm))"
      then have "r = oldest \<or> r \<in> set (take n rest)" by (auto simp: o)
      then show "evicted ?f r" using old n by (auto simp: evicts_def ao)
    next
      fix m assume m: "m < Suc n"
      show "tm_maxMemoryUsage tm < tm_currentMemoryUsage tm
              - sum_list (map (tile_memory tm) (take m (tm_tileAccessOrder tm)))"
      proof (cases m)
        case 0
        with True show ?thesis by simp
      next
        case (Suc m')
        with m have "m' < n" by simp
        with n have "tm_maxMemoryUsage ?e < tm_currentMemoryUsage ?e
              - sum_list (map (tile_memory ?e) (take m' (tm_tileAccessOrder ?e)))"
          by (simp add: evicts_def)
        then show ?thesis by (simp add: Suc o ao cu mx meq mo)
      qed
    qed
    then show ?thesis unfolding e ..
  qed
qed


lemma key_of_access [simp]: "key_of (access t) = key_of t"
  by (simp add: key_of_def access_def)

lemma estimate_access [simp]: "estimateTileMemoryUsage (access t) = estimateTileMemoryUsage t"
  by (simp add: estimateTileMemoryUsage_def access_def)

lemma key_of_rasterized [simp]: "key_of (rasterized_with c t) = key_of t"
  by (simp add: key_of_def rasterized_with_def markClean_def)

lemma estimate_rasterized [simp]:
  "estimateTileMemoryUsage (rasterized_with c t) = estimateTileMemoryUsage t"
  by (simp add: estimateTileMemoryUsage_def rasterized_with_def markClean_def)

text \<open>
  Replacing a stored tile by one with the same key and the same size leaves the
  bookkeeping as it is.
\<close>

lemma inv_touch:
  assumes inv: "tm_inv tm"
    and t: "tm_store tm ref = Some t"
    and k: "key_of u = key_of t"
    and e: "estimateTileMemoryUsage u = estimateTileMemoryUsage t"
    and st: "tm_store tm' = (tm_store tm)(ref \<mapsto> u)"
    and ti: "tm_tiles tm' = tm_tiles tm"
    and ao: "tm_tileAccessOrder tm' = tm_tileAccessOrder tm"
    and cu: "tm_currentMemoryUsage tm' = tm_currentMemoryUsage tm"
    and nx: "tm_next tm' = tm_next tm"
  shows "tm_inv tm'"
proof -
  have mem: "tile_memory tm' r = tile_memory tm r" for r
    using t e by (simp add: tile_memory_estimate st)
  then have "tile_memory tm' = tile_memory tm" by (intro ext)
  then have tr: "tracked_memory tm' = tracked_memory tm"
    by (simp add: tracked_memory_def ao)
  show ?thesis
    unfolding tm_inv_def
  proof (intro conjI ballI allI impI)
    show "distinct (tm_tileAccessOrder tm')" using inv by (simp add: ao tm_inv_def)
  next
    fix r assume "r \<in> set (tm_tileAccessOrder tm')"
    then have r: "r \<in> set (tm_tileAccessOrder tm)" by (simp add: ao)
    from inv_order [OF inv r] show "r < tm_next tm'" by (simp add: nx)
    from inv_order [OF inv r] obtain v where "tm_store tm r = Some v"
      "tm_tiles tm (key_of v) = Some r" by blast
    with t k show "\<exists>t. tm_store tm' r = Some t \<and> tm_tiles tm' (key_of t) = Some r"
      by (auto simp: st ti)
  next
    fix k' r assume "tm_tiles tm' k' = Some r"
    then have a: "tm_tiles tm k' = Some r" by (simp add: ti)
    from inv_tiles [OF inv a] show "r \<in> set (tm_tileAccessOrder tm')" by (simp add: ao)
    from inv_tiles [OF inv a] obtain v where "tm_store tm r = Some v" "key_of v = k'" by blast
    with t k show "\<exists>t. tm_store tm' r = Some t \<and> key_of t = k'" by (auto simp: st)
  next
    show "tm_currentMemoryUsage tm' = tracked_memory tm'"
      using inv by (simp add: cu tr tm_inv_def)
  qed
qed

lemma inv_hit:
  assumes inv: "tm_inv tm"
    and hit: "tm_tiles tm (tile_key (tl_id layer) \<lfloor>x / tm_tileSize tm\<rfloor> \<lfloor>y / tm_tileSize tm\<rfloor>)
              = Some ref"
  shows "tm_inv (snd (getOrCreateTile x y layer tm))"
    and "within_budget tm \<Longrightarrow> within_budget (snd (getOrCreateTile x y layer tm))"
    and "evicts (snd (getOrCreateTile x y layer tm)) (snd (getOrCreateTile x y layer tm)) 0"
    and "creation_order tm \<Longrightarrow> creation_order (snd (getOrCreateTile x y layer tm))"
proof -
  let ?h = "snd (getOrCreateTile x y layer tm)"
  from inv_tiles [OF inv hit] obtain t where t: "tm_store tm ref = Some t"
    by blast
  have st: "tm_store ?h = (tm_store tm)(ref \<mapsto> access t)"
    and ti: "tm_tiles ?h = tm_tiles tm"
    and ao: "tm_tileAccessOrder ?h = tm_tileAccessOrder tm"
    and cu: "tm_currentMemoryUsage ?h = tm_currentMemoryUsage tm"
    and mx: "tm_maxMemoryUsage ?h = tm_maxMemoryUsage tm"
    and nx: "tm_next ?h = tm_next tm"
    using hit t by (simp_all add: getOrCreateTile_def Let_def)
  show "tm_inv ?h"
    using inv t key_of_access estimate_access st ti ao cu nx by (rule inv_touch)
  show "within_budget tm \<Longrightarrow> within_budget ?h"
    by (simp add: within_budget_def cu mx ti)
  show "evicts ?h ?h 0" by (simp add: evicts_def)
  show "creation_order tm \<Longrightarrow> creation_order ?h"
    by (simp add: creation_order_def ao nx)
qed

lemma rasterized_step:
  assumes inv: "tm_inv tm"
  shows "tm_inv (tile_rasterized ref c tm)"
    and "within_budget tm \<Longrightarrow> within_budget (tile_rasterized ref c tm)"
    and "creation_order tm \<Longrightarrow> creation_order (tile_rasterized ref c tm)"
proof -
  show "tm_inv (tile_rasterized ref c tm)"
  proof (cases "tm_store tm ref")
    case None
    with inv show ?thesis by (simp add: tile_rasterized_def)
  next
    case (Some t)
    show ?thesis
      using inv Some key_of_rasterized estimate_rasterized
    proof (rule inv_touch)
      show "tm_store (tile_rasterized ref c tm) = (tm_store tm)(ref \<mapsto> rasterized_with c t)"
        using Some by (simp add: tile_rasterized_def)
    qed (simp_all add: tile_rasterized_def Some)
  qed
  show "within_budget tm \<Longrightarrow> within_budget (tile_rasterized ref c tm)"
    by (simp add: within_budget_def tile_rasterized_def split: option.splits)
  show "creation_order tm \<Longrightarrow> creation_order (tile_rasterized ref c tm)"
    by (simp add: creation_order_def tile_rasterized_def split: option.splits)
qed

text \<open>The access order stays in creation order.\<close>

lemma creation_order_new: "creation_order (new_TilingManager opts)"
  by (simp add: creation_order_def new_TilingManager_def)

lemma creation_order_register:
  assumes inv: "tm_inv tm" and co: "creation_order tm"
  shows "creation_order (register_tile x y layer tm)"
proof -
  have fresh: "tm_next tm \<notin> set (tm_tileAccessOrder tm)"
    using inv by (auto simp: tm_inv_def)
  then have rm: "remove1 (tm_next tm) (tm_tileAccessOrder tm) = tm_tileAccessOrder tm"
    by (simp add: remove1_idem)
  have ao: "tm_tileAccessOrder (register_tile x y layer tm) = tm_tileAccessOrder tm @ [tm_next tm]"
    and nx: "tm_next (register_tile x y layer tm) = Suc (tm_next tm)"
    by (simp_all add: register_tile_def Let_def rm)
  have le: "length (tm_tileAccessOrder tm) \<le> tm_next tm"
  proof -
    have "length (tm_tileAccessOrder tm)
        = length [tm_next tm - length (tm_tileAccessOrder tm) ..< tm_next tm]"
      using co by (simp add: creation_order_def)
    then show ?thesis by simp
  qed
  have "tm_tileAccessOrder tm @ [tm_next tm]
      = [tm_next tm - length (tm_tileAccessOrder tm) ..< Suc (tm_next tm)]"
    using co le by (simp add: creation_order_def)
  moreover have "Suc (tm_next tm) - length (tm_tileAccessOrder tm @ [tm_next tm])
      = tm_next tm - length (tm_tileAccessOrder tm)"
    by simp
  ultimately show ?thesis
    unfolding creation_order_def ao nx by (simp only:)
qed

lemma creation_order_evict:
  assumes inv: "tm_inv tm" and co: "creation_order tm" and o: "tm_tileAccessOrder tm = oldest # rest"
  shows "creation_order (evict_oldest tm)"
proof -
  from evict_oldest_parts [OF inv o] obtain t where
    ao: "tm_tileAccessOrder (evict_oldest tm) = rest"
    and nx: "tm_next (evict_oldest tm) = tm_next tm"
    by blast
  define k where "k = tm_next tm - length (tm_tileAccessOrder tm)"
  from co have "tm_tileAccessOrder tm = [k ..< tm_next tm]"
    unfolding creation_order_def k_def .
  with o have eq: "oldest # rest = [k ..< tm_next tm]" by (simp only:)
  have lt: "k < tm_next tm"
  proof (rule ccontr)
    assume "\<not> k < tm_next tm"
    then have "[k ..< tm_next tm] = []" by simp
    with eq show False by (simp only: list.distinct)
  qed
  then have "[k ..< tm_next tm] = k # [Suc k ..< tm_next tm]" by (rule upt_conv_Cons)
  with eq have "oldest # rest = k # [Suc k ..< tm_next tm]" by (simp only:)
  then have r: "rest = [Suc k ..< tm_next tm]" by (simp only: list.inject)
  have "length [Suc k ..< tm_next tm] = tm_next tm - Suc k" by (rule length_upt)
  with r have "length rest = tm_next tm - Suc k" by (simp only:)
  with lt have "tm_next tm - length rest = Suc k" by arith
  with r have "rest = [tm_next tm - length rest ..< tm_next tm]" by (simp only:)
  then show ?thesis unfolding creation_order_def ao nx .
qed

lemma enforce_creation_order:
  "tm_inv tm \<Longrightarrow> creation_order tm \<Longrightarrow> creation_order (enforceMemoryLimit tm)"
proof (induction tm rule: enforceMemoryLimit.induct)
  case (1 tm)
  show ?case
  proof (cases "tm_currentMemoryUsage tm > tm_maxMemoryUsage tm \<and> tm_tileAccessOrder tm \<noteq> []")
    case True
    then obtain oldest rest where o: "tm_tileAccessOrder tm = oldest # rest"
      by (cases "tm_tileAccessOrder tm") auto
    have i: "tm_inv (evict_oldest tm)" using "1.prems"(1) o by (rule inv_evict)
    have c: "creation_order (evict_oldest tm)" using "1.prems" o by (rule creation_order_evict)
    from "1.IH" [OF True i c] True show ?thesis by (subst enforceMemoryLimit.simps) simp
  next
    case False
    with "1.prems" show ?thesis by (subst enforceMemoryLimit.simps) auto
  qed
qed

lemma getOrCreateTile_step:
  assumes inv: "tm_inv tm" and wb: "within_budget tm" and co: "creation_order tm"
  shows "tm_inv (snd (getOrCreateTile x y layer tm))
     \<and> within_budget (snd (getOrCreateTile x y layer tm))
     \<and> creation_order (snd (getOrCreateTile x y layer tm))
     \<and> creation_order (before_eviction x y layer tm)
     \<and> (\<exists>n. evicts (before_eviction x y layer tm) (snd (getOrCreateTile x y layer tm)) n)"
proof (cases "tm_tiles tm (tile_key (tl_id layer) \<lfloor>x / tm_tileSize tm\<rfloor> \<lfloor>y / tm_tileSize tm\<rfloor>)")
  case None
  have r: "tm_inv (register_tile x y layer tm)" using inv None by (rule inv_register)
  have c: "creation_order (register_tile x y layer tm)" using inv co by (rule creation_order_register)
  have b: "before_eviction x y layer tm = register_tile x y layer tm"
    using None by (simp add: before_eviction_def)
  have g: "snd (getOrCreateTile x y layer tm) = enforceMemoryLimit (register_tile x y layer tm)"
    using getOrCreateTile_miss [OF None] by simp
  show ?thesis
    unfolding b g
    using enforce_inv [OF r] enforce_within [OF r] enforce_evicts [OF r]
      enforce_creation_order [OF r c] c
    by simp
next
  case (Some ref)
  have b: "before_eviction x y layer tm = snd (getOrCreateTile x y layer tm)"
    using Some by (simp add: before_eviction_def)
  show ?thesis
    unfolding b using inv_hit [OF inv Some] wb co by blast
qed

lemma within_new: "within_budget (new_TilingManager opts)"
  by (simp add: within_budget_def new_TilingManager_def)

lemma run_events_inv:
  "tm_inv tm \<Longrightarrow> within_budget tm \<Longrightarrow> creation_order tm \<Longrightarrow>
   tm_inv (run_events events tm) \<and> within_budget (run_events events tm)
   \<and> creation_order (run_events events tm)"
proof (induction events tm rule: run_events.induct)
  case (1 tm)
  then show ?case by simp
next
  case (2 x y layer events tm)
  from getOrCreateTile_step [OF "2.prems", of x y layer]
  have "tm_inv (snd (getOrCreateTile x y layer tm))"
    "within_budget (snd (getOrCreateTile x y layer tm))"
    "creation_order (snd (getOrCreateTile x y layer tm))" by simp_all
  from "2.IH" [OF this] show ?case by simp
next
  case (3 ref content events tm)
  from rasterized_step [OF "3.prems"(1), of ref content] "3.prems"
  have "tm_inv (tile_rasterized ref content tm)"
    "within_budget (tile_rasterized ref content tm)"
    "creation_order (tile_rasterized ref content tm)" by simp_all
  from "3.IH" [OF this] show ?case by simp
qed

text \<open>
  Claim C3.  Take any sequence of events on a new tiling manager (tiles requested, tiles
  rasterized), followed by one more request.  From the state before eviction to the state
  the request returns, the first \<open>n\<close> tiles of the access order were evicted, for some
  \<open>n\<close>: each has lost its backing storage and is gone from the map and the order, the
  memory counter went down by exactly their \<open>width * height * 4\<close>, and eviction went
  on only while the counter exceeded the budget.  The access order lists the tiles held
  in the order of their creation, so the tiles evicted are those created first, and every
  tile that stays was created after them.  Afterwards the counter is within the budget or
  no tile remains, and the counter is the sum of \<open>width * height * 4\<close> over the tiles
  that remain.
\<close>

theorem lru_eviction_restores_budget:
  "(\<exists>n. evicts (before_eviction x y layer (run_events events (new_TilingManager opts)))
           (snd (getOrCreateTile x y layer (run_events events (new_TilingManager opts)))) n)
   \<and> tm_tileAccessOrder (before_eviction x y layer (run_events events (new_TilingManager opts)))
     = [tm_next (before_eviction x y layer (run_events events (new_TilingManager opts)))
          - length (tm_tileAccessOrder
              (before_eviction x y layer (run_events events (new_TilingManager opts))))
        ..< tm_next (before_eviction x y layer (run_events events (new_TilingManager opts)))]
   \<and> within_budget (snd (getOrCreateTile x y layer (run_events events (new_TilingManager opts))))
   \<and> tm_currentMemoryUsage (snd (getOrCreateTile x y layer
         (run_events events (new_TilingManager opts))))
     = (\<Sum>r\<leftarrow>tm_tileAccessOrder (snd (getOrCreateTile x y layer
                (run_events events (new_TilingManager opts)))).
          case tm_store (snd (getOrCreateTile x y layer
                  (run_events events (new_TilingManager opts)))) r of
            None \<Rightarrow> 0
          | Some t \<Rightarrow> t_width t * t_height t * 4)"
proof -
  let ?tm = "run_events events (new_TilingManager opts)"
  have "tm_inv ?tm \<and> within_budget ?tm \<and> creation_order ?tm"
    using inv_new within_new creation_order_new by (rule run_events_inv)
  then have s: "tm_inv (snd (getOrCreateTile x y layer ?tm))
     \<and> within_budget (snd (getOrCreateTile x y layer ?tm))
     \<and> creation_order (snd (getOrCreateTile x y layer ?tm))
     \<and> creation_order (before_eviction x y layer ?tm)
     \<and> (\<exists>n. evicts (before_eviction x y layer ?tm) (snd (getOrCreateTile x y layer ?tm)) n)"
    using getOrCreateTile_step by blast
  have m: "tile_memory tm = (\<lambda>r. case tm_store tm r of None \<Rightarrow> 0
                                   | Some t \<Rightarrow> t_width t * t_height t * 4)" for tm
    by (intro ext) (simp add: tile_memory_def)
  from s have "tm_currentMemoryUsage (snd (getOrCreateTile x y layer ?tm))
      = tracked_memory (snd (getOrCreateTile x y layer ?tm))"
    by (simp add: tm_inv_def)
  then have u: "tm_currentMemoryUsage (snd (getOrCreateTile x y layer ?tm))
     = (\<Sum>r\<leftarrow>tm_tileAccessOrder (snd (getOrCreateTile x y layer ?tm)).
          case tm_store (snd (getOrCreateTile x y layer ?tm)) r of
            None \<Rightarrow> 0
          | Some t \<Rightarrow> t_width t * t_height t * 4)"
    by (simp add: tracked_memory_def m)
  from s have c: "tm_tileAccessOrder (before_eviction x y layer ?tm)
     = [tm_next (before_eviction x y layer ?tm)
          - length (tm_tileAccessOrder (before_eviction x y layer ?tm))
        ..< tm_next (before_eviction x y layer ?tm)]"
    by (simp add: creation_order_def)
  from s u c show ?thesis by blast
qed

theorem lru_eviction_restores_budget_witness:
  "(\<exists>n. evicts (before_eviction 256 0 page_layer (run_events first_events (new_TilingManager small_budget)))
           (snd (getOrCreateTile 256 0 page_layer
              (run_events first_events (new_TilingManager small_budget)))) n)
   \<and> within_budget (snd (getOrCreateTile 256 0 page_layer
        (run_events first_events (new_TilingManager small_budget))))
   \<and> tm_tileAccessOrder (before_eviction 256 0 page_layer
        (run_events first_events (new_TilingManager small_budget))) = [0, 1, 2]
   \<and> map (\<lambda>r. map_option (\<lambda>t. (t_x t, t_width t, t_height t, t_rasterizedContent t))
                 (tm_store (before_eviction 256 0 page_layer
                    (run_events first_events (new_TilingManager small_budget))) r)) [0, 1, 2]
     = [Some (0, 256, 256, Some ''canvas_0''), Some (768, 32, 256, None),
        Some (256, 256, 256, None)]
   \<and> tm_currentMemoryUsage (before_eviction 256 0 page_layer
        (run_events first_events (new_TilingManager small_budget))) = 557056
   \<and> tm_maxMemoryUsage (snd (getOrCreateTile 256 0 page_layer
        (run_events first_events (new_TilingManager small_budget)))) = 300000
   \<and> tm_tileAccessOrder (snd (getOrCreateTile 256 0 page_layer
        (run_events first_events (new_TilingManager small_budget)))) = [1, 2]
   \<and> tm_currentMemoryUsage (snd (getOrCreateTile 256 0 page_layer
        (run_events first_events (new_TilingManager small_budget)))) = 294912
   \<and> tilesEvicted (tm_stats (snd (getOrCreateTile 256 0 page_layer
        (run_events first_events (new_TilingManager small_budget))))) = 1
   \<and> map_option t_rasterizedContent (tm_store (snd (getOrCreateTile 256 0 page_layer
        (run_events first_events (new_TilingManager small_budget)))) 0) = Some None
   \<and> evicted (snd (getOrCreateTile 256 0 page_layer
        (run_events first_events (new_TilingManager small_budget)))) 0"
proof -
  let ?tm = "run_events first_events (new_TilingManager small_budget)"
  have v: "tm_tileAccessOrder (before_eviction 256 0 page_layer ?tm) = [0, 1, 2]
   \<and> map (\<lambda>r. map_option (\<lambda>t. (t_x t, t_width t, t_height t, t_rasterizedContent t))
                 (tm_store (before_eviction 256 0 page_layer ?tm) r)) [0, 1, 2]
     = [Some (0, 256, 256, Some ''canvas_0''), Some (768, 32, 256, None),
        Some (256, 256, 256, None)]
   \<and> tm_currentMemoryUsage (before_eviction 256 0 page_layer ?tm) = 557056
   \<and> tm_maxMemoryUsage (snd (getOrCreateTile 256 0 page_layer ?tm)) = 300000
   \<and> tm_tileAccessOrder (snd (getOrCreateTile 256 0 page_layer ?tm)) = [1, 2]
   \<and> tm_currentMemoryUsage (snd (getOrCreateTile 256 0 page_layer ?tm)) = 294912
   \<and> tilesEvicted (tm_stats (snd (getOrCreateTile 256 0 page_layer ?tm))) = 1
   \<and> map_option t_rasterizedContent
        (tm_store (snd (getOrCreateTile 256 0 page_layer ?tm)) 0) = Some None
   \<and> evicted (snd (getOrCreateTile 256 0 page_layer ?tm)) 0"
    by code_simp
  show ?thesis
    using v lru_eviction_restores_budget [of 256 0 page_layer first_events small_budget]
    by blast
qed

subsection \<open>Batching of quads\<close>

lemma adjacent_differ_snoc:
  "adjacent_differ (bs @ [a]) \<Longrightarrow> batch_key a \<noteq> batch_key b \<Longrightarrow> adjacent_differ (bs @ [a, b])"
  by (induction bs rule: adjacent_differ.induct) auto

lemma adjacent_differ_replace_last:
  "adjacent_differ (bs @ [a]) \<Longrightarrow> batch_key a' = batch_key a \<Longrightarrow> adjacent_differ (bs @ [a'])"
  by (induction bs rule: adjacent_differ.induct) auto

lemma submit_cases:
  assumes "q_visible q" "gpu_enableBatching g"
  shows "b_quads (gpu_currentBatch g) = [] \<Longrightarrow>
           submitDrawQuad q g = g\<lparr>gpu_currentBatch := new_batch q\<rparr>"
    and "b_quads (gpu_currentBatch g) \<noteq> [] \<Longrightarrow> batch_key (gpu_currentBatch g) = quad_key q \<Longrightarrow>
           submitDrawQuad q g = g\<lparr>gpu_currentBatch :=
             (gpu_currentBatch g)\<lparr>b_quads := b_quads (gpu_currentBatch g) @ [q]\<rparr>\<rparr>"
    and "b_quads (gpu_currentBatch g) \<noteq> [] \<Longrightarrow> batch_key (gpu_currentBatch g) \<noteq> quad_key q \<Longrightarrow>
           submitDrawQuad q g = g\<lparr>gpu_commandBuffer := gpu_commandBuffer g @ [gpu_currentBatch g],
             gpu_stats := (gpu_stats g)\<lparr>batchCount := batchCount (gpu_stats g) + 1\<rparr>,
             gpu_currentBatch := new_batch q\<rparr>"
  using assms
  by (auto simp: submitDrawQuad_def canBatchWithCurrent_def flushCurrentBatch_def new_batch_def
      batch_key_def quad_key_def)

lemma uniform_new [simp]: "uniform (new_batch q)"
  by (simp add: uniform_def new_batch_def batch_key_def quad_key_def)

lemma key_new [simp]: "batch_key (new_batch q) = quad_key q"
  by (simp add: new_batch_def batch_key_def quad_key_def)

lemma quads_new [simp]: "b_quads (new_batch q) = [q]"
  by (simp add: new_batch_def)

lemma submit_batched:
  assumes b: "batched g" and e: "gpu_enableBatching g"
  shows "batched (submitDrawQuad q g) \<and> gpu_enableBatching (submitDrawQuad q g)
     \<and> concat (map b_quads (all_batches (submitDrawQuad q g)))
       = concat (map b_quads (all_batches g)) @ (if q_visible q then [q] else [])"
proof (cases "q_visible q")
  case False
  then show ?thesis using assms by (simp add: submitDrawQuad_def)
next
  case vis: True
  let ?cur = "gpu_currentBatch g"
  show ?thesis
  proof (cases "b_quads ?cur = []")
    case True
    with b have buf: "gpu_commandBuffer g = []" by (simp add: batched_def)
    show ?thesis
      unfolding submit_cases(1) [OF vis e True]
      using b e vis True buf
      by (simp add: batched_def all_batches_def)
  next
    case nonempty: False
    from b nonempty have u: "list_all uniform (gpu_commandBuffer g)" "uniform ?cur"
      and a: "adjacent_differ (gpu_commandBuffer g @ [?cur])"
      and c: "batchCount (gpu_stats g) = length (gpu_commandBuffer g)"
      by (simp_all add: batched_def all_batches_def)
    show ?thesis
    proof (cases "batch_key ?cur = quad_key q")
      case True
      let ?cur' = "?cur\<lparr>b_quads := b_quads ?cur @ [q]\<rparr>"
      have k: "batch_key ?cur' = batch_key ?cur" by (simp add: batch_key_def)
      have u': "uniform ?cur'" using u(2) True by (simp add: uniform_def batch_key_def)
      have a': "adjacent_differ (gpu_commandBuffer g @ [?cur'])"
        using a k by (rule adjacent_differ_replace_last)
      show ?thesis
        unfolding submit_cases(2) [OF vis e nonempty True]
        using u u' a' c e vis nonempty by (simp add: batched_def all_batches_def)
    next
      case False
      have a': "adjacent_differ (gpu_commandBuffer g @ [?cur, new_batch q])"
        using a False by (intro adjacent_differ_snoc) simp_all
      have ne: "b_quads (new_batch q) \<noteq> []" by (simp add: new_batch_def)
      show ?thesis
        unfolding submit_cases(3) [OF vis e nonempty False]
        using u a' c e vis nonempty ne by (simp add: batched_def all_batches_def)
    qed
  qed
qed

lemma submit_all_batched:
  "batched g \<Longrightarrow> gpu_enableBatching g \<Longrightarrow>
   batched (submit_all qs g) \<and> gpu_enableBatching (submit_all qs g)
   \<and> concat (map b_quads (all_batches (submit_all qs g)))
     = concat (map b_quads (all_batches g)) @ filter q_visible qs"
proof (induction qs arbitrary: g)
  case Nil
  then show ?case by (simp add: submit_all_def)
next
  case (Cons q qs)
  from submit_batched [OF Cons.prems, of q]
  have s: "batched (submitDrawQuad q g)" "gpu_enableBatching (submitDrawQuad q g)"
    "concat (map b_quads (all_batches (submitDrawQuad q g)))
       = concat (map b_quads (all_batches g)) @ (if q_visible q then [q] else [])"
    by simp_all
  from Cons.IH [OF s(1) s(2)] s(3) show ?case
    by (simp add: submit_all_def)
qed

lemma flush_buffer:
  "batched g \<Longrightarrow> gpu_commandBuffer (flushCurrentBatch g) = all_batches g
     \<and> batchCount (gpu_stats (flushCurrentBatch g)) = length (all_batches g)"
  by (simp add: flushCurrentBatch_def all_batches_def batched_def)

lemma execute_counts:
  "b_quads c \<noteq> [] \<Longrightarrow>
   totalDrawCalls (gpu_stats (snd (executeBatchDraw ctx c vp g))) = totalDrawCalls (gpu_stats g) + 1
   \<and> totalQuads (gpu_stats (snd (executeBatchDraw ctx c vp g)))
       = totalQuads (gpu_stats g) + length (b_quads c)
   \<and> totalTriangles (gpu_stats (snd (executeBatchDraw ctx c vp g)))
       = totalTriangles (gpu_stats g) + 2 * length (b_quads c)"
  by (auto simp add: executeBatchDraw_def Let_def bindShader_def bindTexture_def split: option.splits)

lemma process_counts:
  "list_all uniform cs \<Longrightarrow>
   totalDrawCalls (gpu_stats (snd (foldl (\<lambda>(c, s) command. executeBatchDraw c command vp s) (ctx, g) cs)))
     = totalDrawCalls (gpu_stats g) + length cs
   \<and> totalQuads (gpu_stats (snd (foldl (\<lambda>(c, s) command. executeBatchDraw c command vp s) (ctx, g) cs)))
     = totalQuads (gpu_stats g) + length (concat (map b_quads cs))
   \<and> totalTriangles (gpu_stats (snd (foldl (\<lambda>(c, s) command. executeBatchDraw c command vp s) (ctx, g) cs)))
     = totalTriangles (gpu_stats g) + 2 * length (concat (map b_quads cs))"
proof (induction cs arbitrary: ctx g)
  case Nil
  then show ?case by simp
next
  case (Cons c cs)
  then have rest: "list_all uniform cs" and "uniform c" by simp_all
  then have ne: "b_quads c \<noteq> []" by (simp add: uniform_def)
  obtain ctx1 g1 where x: "executeBatchDraw ctx c vp g = (ctx1, g1)" by (cases "executeBatchDraw ctx c vp g")
  from execute_counts [OF ne, of ctx vp g] x Cons.IH [OF rest, of ctx1 g1]
  show ?case by simp
qed

lemma frame_batches:
  fixes qs :: "draw_quad list"
  defines "g \<equiv> flushCurrentBatch (submit_all qs (new_GPUSimulator None))"
  shows "concat (map b_quads (gpu_commandBuffer g)) = filter q_visible qs"
    and "list_all uniform (gpu_commandBuffer g)"
    and "adjacent_differ (gpu_commandBuffer g)"
    and "batchCount (gpu_stats g) = length (gpu_commandBuffer g)"
    and "totalDrawCalls (gpu_stats (snd (processCommandBuffer ctx vp g)))
         = length (gpu_commandBuffer g)"
    and "totalTriangles (gpu_stats (snd (processCommandBuffer ctx vp g)))
         = 2 * length (filter q_visible qs)"
proof -
  let ?s = "submit_all qs (new_GPUSimulator None)"
  have b0: "batched (new_GPUSimulator None)" and e0: "gpu_enableBatching (new_GPUSimulator None)"
    by (simp_all add: batched_def all_batches_def new_GPUSimulator_def resetFrameStats_def)
  have a0: "all_batches (new_GPUSimulator None) = []"
    by (simp add: all_batches_def new_GPUSimulator_def)
  from submit_all_batched [OF b0 e0, of qs]
  have b: "batched ?s" and c: "concat (map b_quads (all_batches ?s)) = filter q_visible qs"
    by (simp_all add: a0)
  from flush_buffer [OF b] have f: "gpu_commandBuffer g = all_batches ?s"
    and n: "batchCount (gpu_stats g) = length (all_batches ?s)"
    by (simp_all add: g_def)
  show 1: "concat (map b_quads (gpu_commandBuffer g)) = filter q_visible qs"
    using c by (simp add: f)
  show 2: "list_all uniform (gpu_commandBuffer g)" using b by (simp add: f batched_def)
  show "adjacent_differ (gpu_commandBuffer g)" using b by (simp add: f batched_def)
  show "batchCount (gpu_stats g) = length (gpu_commandBuffer g)" using n by (simp add: f)
  have z: "totalDrawCalls (gpu_stats g) = 0 \<and> totalTriangles (gpu_stats g) = 0"
  proof -
    have k: "\<And>q s. totalDrawCalls (gpu_stats (submitDrawQuad q s)) = totalDrawCalls (gpu_stats s)
         \<and> totalTriangles (gpu_stats (submitDrawQuad q s)) = totalTriangles (gpu_stats s)"
      by (simp add: submitDrawQuad_def flushCurrentBatch_def)
    have "totalDrawCalls (gpu_stats (submit_all qs s)) = totalDrawCalls (gpu_stats s)
         \<and> totalTriangles (gpu_stats (submit_all qs s)) = totalTriangles (gpu_stats s)" for s
      unfolding submit_all_def by (induction qs arbitrary: s) (simp_all add: k)
    then show ?thesis
      by (simp add: g_def flushCurrentBatch_def new_GPUSimulator_def resetFrameStats_def)
  qed
  from process_counts [OF 2, of vp ctx g] z 1
  show "totalDrawCalls (gpu_stats (snd (processCommandBuffer ctx vp g)))
         = length (gpu_commandBuffer g)"
    and "totalTriangles (gpu_stats (snd (processCommandBuffer ctx vp g)))
         = 2 * length (filter q_visible qs)"
    by (simp_all add: processCommandBuffer_def split_beta)
qed

text \<open>
  Claim C8.  With batching enabled, a visible quad submitted while a batch is open is
  appended to that batch if its shader, texture and blend mode equal the batch's; if one
  of the three differs, the open batch is pushed onto the command buffer as one command
  (the batch count grows by one) and a new batch holding just that quad is opened.
  Executing a batch of \<open>n > 0\<close> quads adds one to the draw calls and \<open>2n\<close> to the
  triangles.  For a whole frame on a new simulator: the flushed batches, concatenated,
  are the visible quads in submission order; no batch is empty, each holds quads of one
  key, and neighbouring batches differ in their key; executing them makes as many draw
  calls as there are batches and twice as many triangles as there are visible quads.
\<close>

theorem quads_batch_on_equal_state:
  "(gpu_enableBatching g \<and> q_visible q \<and> b_quads (gpu_currentBatch g) \<noteq> [] \<longrightarrow>
      (if (b_shader (gpu_currentBatch g), b_texture (gpu_currentBatch g),
           b_blendMode (gpu_currentBatch g)) = (q_shader q, q_texture q, q_blendMode q)
       then submitDrawQuad q g
            = g\<lparr>gpu_currentBatch :=
                  (gpu_currentBatch g)\<lparr>b_quads := b_quads (gpu_currentBatch g) @ [q]\<rparr>\<rparr>
       else submitDrawQuad q g
            = g\<lparr>gpu_commandBuffer := gpu_commandBuffer g @ [gpu_currentBatch g],
                 gpu_stats := (gpu_stats g)\<lparr>batchCount := batchCount (gpu_stats g) + 1\<rparr>,
                 gpu_currentBatch :=
                   \<lparr>b_quads = [q], b_shader = q_shader q, b_texture = q_texture q,
                    b_blendMode = q_blendMode q\<rparr>\<rparr>))
   \<and> (b_quads command \<noteq> [] \<longrightarrow>
        totalDrawCalls (gpu_stats (snd (executeBatchDraw ctx command viewport g')))
          = totalDrawCalls (gpu_stats g') + 1
        \<and> totalTriangles (gpu_stats (snd (executeBatchDraw ctx command viewport g')))
          = totalTriangles (gpu_stats g') + 2 * length (b_quads command))
   \<and> concat (map b_quads
        (gpu_commandBuffer (flushCurrentBatch (submit_all qs (new_GPUSimulator None)))))
      = filter q_visible qs
   \<and> list_all uniform
        (gpu_commandBuffer (flushCurrentBatch (submit_all qs (new_GPUSimulator None))))
   \<and> adjacent_differ
        (gpu_commandBuffer (flushCurrentBatch (submit_all qs (new_GPUSimulator None))))
   \<and> totalDrawCalls (gpu_stats (snd (processCommandBuffer ctx viewport
        (flushCurrentBatch (submit_all qs (new_GPUSimulator None))))))
      = length (gpu_commandBuffer (flushCurrentBatch (submit_all qs (new_GPUSimulator None))))
   \<and> totalTriangles (gpu_stats (snd (processCommandBuffer ctx viewport
        (flushCurrentBatch (submit_all qs (new_GPUSimulator None))))))
      = 2 * length (filter q_visible qs)"
proof -
  have step: "gpu_enableBatching g \<and> q_visible q \<and> b_quads (gpu_currentBatch g) \<noteq> [] \<longrightarrow>
      (if (b_shader (gpu_currentBatch g), b_texture (gpu_currentBatch g),
           b_blendMode (gpu_currentBatch g)) = (q_shader q, q_texture q, q_blendMode q)
       then submitDrawQuad q g
            = g\<lparr>gpu_currentBatch :=
                  (gpu_currentBatch g)\<lparr>b_quads := b_quads (gpu_currentBatch g) @ [q]\<rparr>\<rparr>
       else submitDrawQuad q g
            = g\<lparr>gpu_commandBuffer := gpu_commandBuffer g @ [gpu_currentBatch g],
                 gpu_stats := (gpu_stats g)\<lparr>batchCount := batchCount (gpu_stats g) + 1\<rparr>,
                 gpu_currentBatch :=
                   \<lparr>b_quads = [q], b_shader = q_shader q, b_texture = q_texture q,
                    b_blendMode = q_blendMode q\<rparr>\<rparr>)"
    by (auto simp add: submitDrawQuad_def canBatchWithCurrent_def flushCurrentBatch_def)
  have exec: "b_quads command \<noteq> [] \<longrightarrow>
        totalDrawCalls (gpu_stats (snd (executeBatchDraw ctx command viewport g')))
          = totalDrawCalls (gpu_stats g') + 1
        \<and> totalTriangles (gpu_stats (snd (executeBatchDraw ctx command viewport g')))
          = totalTriangles (gpu_stats g') + 2 * length (b_quads command)"
    using execute_counts [of command ctx viewport g'] by simp
  show ?thesis
    using step exec frame_batches by simp
qed

theorem quads_batch_on_equal_state_witness:
  "gpu_enableBatching open_batch_gpu \<and> q_visible plain_quad \<and> q_visible solid_quad
   \<and> b_quads (gpu_currentBatch open_batch_gpu) = [plain_quad]
   \<and> b_quads (gpu_currentBatch (submitDrawQuad plain_quad open_batch_gpu))
     = [plain_quad, plain_quad]
   \<and> gpu_commandBuffer (submitDrawQuad plain_quad open_batch_gpu) = []
   \<and> gpu_commandBuffer (submitDrawQuad solid_quad open_batch_gpu)
     = [gpu_currentBatch open_batch_gpu]
   \<and> b_quads (gpu_currentBatch (submitDrawQuad solid_quad open_batch_gpu)) = [solid_quad]
   \<and> totalDrawCalls (gpu_stats (snd (executeBatchDraw []
         (gpu_currentBatch (submitDrawQuad plain_quad open_batch_gpu)) page_bounds
         open_batch_gpu))) = 1
   \<and> totalTriangles (gpu_stats (snd (executeBatchDraw []
         (gpu_currentBatch (submitDrawQuad plain_quad open_batch_gpu)) page_bounds
         open_batch_gpu))) = 4
   \<and> map b_quads (gpu_commandBuffer (flushCurrentBatch
         (submit_all [plain_quad, plain_quad, solid_quad] (new_GPUSimulator None))))
     = [[plain_quad, plain_quad], [solid_quad]]
   \<and> totalDrawCalls (gpu_stats (snd (processCommandBuffer [] page_bounds (flushCurrentBatch
         (submit_all [plain_quad, plain_quad, solid_quad] (new_GPUSimulator None)))))) = 2
   \<and> totalTriangles (gpu_stats (snd (processCommandBuffer [] page_bounds (flushCurrentBatch
         (submit_all [plain_quad, plain_quad, solid_quad] (new_GPUSimulator None)))))) = 6"
proof -
  have h: "gpu_enableBatching open_batch_gpu \<and> q_visible plain_quad \<and> q_visible solid_quad
     \<and> b_quads (gpu_currentBatch open_batch_gpu) = [plain_quad]"
    by (simp add: open_batch_gpu_def submitDrawQuad_def canBatchWithCurrent_def
        flushCurrentBatch_def new_GPUSimulator_def plain_quad_def solid_quad_def)
  have k: "b_shader (gpu_currentBatch open_batch_gpu) = ''default''
     \<and> b_texture (gpu_currentBatch open_batch_gpu) = None
     \<and> b_blendMode (gpu_currentBatch open_batch_gpu) = ''source-over''
     \<and> gpu_commandBuffer open_batch_gpu = []
     \<and> gpu_stats open_batch_gpu = resetFrameStats"
    by (simp add: open_batch_gpu_def submitDrawQuad_def canBatchWithCurrent_def
        flushCurrentBatch_def new_GPUSimulator_def plain_quad_def)
  have q: "q_shader plain_quad = ''default'' \<and> q_texture plain_quad = None
     \<and> q_blendMode plain_quad = ''source-over'' \<and> q_shader solid_quad = ''solid''"
    by (simp add: plain_quad_def solid_quad_def)
  have b: "map b_quads (gpu_commandBuffer (flushCurrentBatch
         (submit_all [plain_quad, plain_quad, solid_quad] (new_GPUSimulator None))))
     = [[plain_quad, plain_quad], [solid_quad]]"
    by (simp add: submit_all_def submitDrawQuad_def canBatchWithCurrent_def
        flushCurrentBatch_def new_GPUSimulator_def plain_quad_def solid_quad_def)
  have l: "length (gpu_commandBuffer (flushCurrentBatch
         (submit_all [plain_quad, plain_quad, solid_quad] (new_GPUSimulator None)))) = 2"
    using arg_cong [OF b, of length] by simp
  have v: "filter q_visible [plain_quad, plain_quad, solid_quad]
      = [plain_quad, plain_quad, solid_quad]"
    by (simp add: plain_quad_def solid_quad_def)
  note t1 = quads_batch_on_equal_state [where g = open_batch_gpu and q = plain_quad
      and command = "gpu_currentBatch (submitDrawQuad plain_quad open_batch_gpu)"
      and ctx = "[]" and viewport = page_bounds and g' = open_batch_gpu
      and qs = "[plain_quad, plain_quad, solid_quad]"]
  note t2 = quads_batch_on_equal_state [where g = open_batch_gpu and q = solid_quad
      and command = "gpu_currentBatch (submitDrawQuad plain_quad open_batch_gpu)"
      and ctx = "[]" and viewport = page_bounds and g' = open_batch_gpu
      and qs = "[plain_quad, plain_quad, solid_quad]"]
  show ?thesis
    using h k q b l v t1 t2
    by (simp add: resetFrameStats_def)
qed

end
